theory Spec2Isabelle
  imports Main "HOL-Library.Word"
begin

section \<open>Values of the runtime (package \<open>instance\<close>)\<close>

text \<open>
  An \<open>ilos.Instance\<close> is a Go interface value.  The variants used by the functions
  verified here are the empty list, \<open>t\<close>, integers (Go \<open>int\<close>, taken as 64 bits),
  symbols (\<open>type Symbol string\<close>), pointers to cons cells (\<open>*instance.Cons\<close>) and
  callables.  A cons cell lives in the store and is named by its address, so that two
  conses with the same contents are still different values, as two Go pointers are.
  Go's \<open>==\<close> on two interface values holding these variants is HOL equality.
\<close>

datatype Instance =
    Null
  | T
  | Integer "64 word"
  | Symbol string
  | ConsRef nat
  | Function nat

text \<open>\<open>symbol.go\<close>: \<open>func NewSymbol(n string) ilos.Instance { return Symbol(n) }\<close>.\<close>

definition NewSymbol :: "string \<Rightarrow> Instance" where
  "NewSymbol n = Symbol n"

subsection \<open>Streams (\<open>stream.go\<close>)\<close>

text \<open>
  \<open>type Stream struct { Column *int; Reader *tokenizer.Reader; Writer io.Writer }\<close>.
  The column counter is modelled by its current value, the reader and the writer by
  optional handles (\<open>None\<close> is Go's \<open>nil\<close>).
\<close>

record Stream =
  Column :: int
  Reader :: "nat option"
  Writer :: "nat option"

text \<open>\<open>func (Stream) String() string { return "#<INPUT-STREAM>" }\<close>\<close>

definition Stream_String :: "Stream \<Rightarrow> string" where
  "Stream_String s = ''#<INPUT-STREAM>''"

subsection \<open>The store of cons cells\<close>

text \<open>
  \<open>type Cons struct { Car, Cdr ilos.Instance }\<close>.  The store is the list of all cells
  allocated so far; the address of a cell is its position.  \<open>NewCons\<close> allocates at the
  end, so every older cell keeps its address and its contents.  Memory is unbounded here:
  an allocation never fails.
\<close>

record cons_cell =
  Car :: Instance
  Cdr :: Instance

type_synonym store = "cons_cell list"

definition NewCons :: "Instance \<Rightarrow> Instance \<Rightarrow> store \<Rightarrow> Instance \<times> store" where
  "NewCons car cdr h = (ConsRef (length h), h @ [\<lparr>Car = car, Cdr = cdr\<rparr>])"

text \<open>
  \<open>listFrom lo h v xs\<close>: in the store \<open>h\<close> the value \<open>v\<close> is a proper list with the
  elements \<open>xs\<close>, every cell of which has an address of at least \<open>lo\<close>.  With \<open>lo = 0\<close>
  it says that \<open>v\<close> is the proper list \<open>xs\<close>; with \<open>lo\<close> the size of an earlier store
  it says moreover that all the cells of the list were allocated after that store.
\<close>

fun listFrom :: "nat \<Rightarrow> store \<Rightarrow> Instance \<Rightarrow> Instance list \<Rightarrow> bool" where
  "listFrom lo h v [] = (v = Null)"
| "listFrom lo h v (x # xs) =
     (case v of
        ConsRef a \<Rightarrow> lo \<le> a \<and> a < length h \<and> Car (h ! a) = x \<and> listFrom lo h (Cdr (h ! a)) xs
      | _ \<Rightarrow> False)"

subsection \<open>Classes and conditions\<close>

datatype cls = ClassList | ClassCons | ClassNull | ClassInteger | ClassSymbol | ClassFunction

text \<open>
  The second result of a library function: \<open>nil\<close> (here the \<open>Inr\<close> side of a sum) or
  a condition.  \<open>Other\<close> carries whatever a called function returned in its error slot.
\<close>

datatype condition = DomainError Instance cls | ArityError | Other Instance

text \<open>
  Modelled from the spec: \<open>ilos.InstanceOf\<close> and the class lattice are not in
  \<open>src/\<close>.  The lattice of the specification has \<open><list>\<close> above \<open><cons>\<close> and
  \<open><null>\<close>, and \<open>nil\<close> is both a list and a symbol.
\<close>

fun InstanceOf :: "cls \<Rightarrow> Instance \<Rightarrow> bool" where
  "InstanceOf ClassList x = (case x of Null \<Rightarrow> True | ConsRef _ \<Rightarrow> True | _ \<Rightarrow> False)"
| "InstanceOf ClassCons x = (case x of ConsRef _ \<Rightarrow> True | _ \<Rightarrow> False)"
| "InstanceOf ClassNull x = (case x of Null \<Rightarrow> True | _ \<Rightarrow> False)"
| "InstanceOf ClassInteger x = (case x of Integer _ \<Rightarrow> True | _ \<Rightarrow> False)"
| "InstanceOf ClassSymbol x = (case x of Symbol _ \<Rightarrow> True | Null \<Rightarrow> True | _ \<Rightarrow> False)"
| "InstanceOf ClassFunction x = (case x of Function _ \<Rightarrow> True | _ \<Rightarrow> False)"

text \<open>
  Modelled from the spec: \<open>ensure\<close> is not in \<open>src/\<close>.  It checks every given object
  against the class and signals a domain-error (slots: the object and the expected class)
  for the first one that is not an instance; the condition is returned in the error slot.
  The environment argument only serves the signalling and is left out.
\<close>

fun ensure :: "cls \<Rightarrow> Instance list \<Rightarrow> condition option" where
  "ensure c [] = None"
| "ensure c (x # xs) = (if InstanceOf c x then ensure c xs else Some (DomainError x c))"

text \<open>
  Modelled from the spec: the method \<open>Slice\<close> of \<open>instance.List\<close> is not in \<open>src/\<close>.
  A list is a chain of conses; \<open>Slice\<close> follows the chain while the value is a cons, as
  the loops of \<open>util.go\<close> do, and collects the cars.  On a cyclic chain the walk does not
  return, which is the result \<open>None\<close>; an address outside the store has no result either
  (no Go value has such an address).
\<close>

partial_function (option) Slice :: "store \<Rightarrow> Instance \<Rightarrow> Instance list option" where
  "Slice h i =
     (case i of
        ConsRef a \<Rightarrow>
          (if a < length h
           then Option.bind (Slice h (Cdr (h ! a))) (\<lambda>s. Some (Car (h ! a) # s))
           else None)
      | _ \<Rightarrow> Some [])"

declare Slice.simps [code]

section \<open>The list library (\<open>list.go\<close>)\<close>

subsection \<open>\<open>CreateList\<close>\<close>

text \<open>
  \<open>for j := 0; j < int(i.(instance.Integer)); j++ { cons = instance.NewCons(elm, cons) }\<close>
\<close>

function CreateList_loop ::
  "int \<Rightarrow> int \<Rightarrow> Instance \<Rightarrow> Instance \<Rightarrow> store \<Rightarrow> Instance \<times> store" where
  "CreateList_loop j n elm cons h =
     (if j < n
      then (case NewCons elm cons h of (c, h') \<Rightarrow> CreateList_loop (j + 1) n elm c h')
      else (cons, h))"
  by pat_completeness auto
termination
  by (relation "measure (\<lambda>(j, n, elm, cons, h). nat (n - j))") auto

declare CreateList_loop.simps [simp del]

text \<open>
  The variadic \<open>initialElement\<close> is the list of the optional arguments.  After \<open>ensure\<close>
  the type assertion \<open>i.(instance.Integer)\<close> cannot fail; the last case is unreachable.
  \<open>SignalCondition\<close> is not in \<open>src/\<close>; as in the specification, signalling a
  condition that is not continuable puts the condition in the error slot of the result.
\<close>

definition CreateList ::
  "Instance \<Rightarrow> Instance list \<Rightarrow> store \<Rightarrow> (condition + Instance) \<times> store" where
  "CreateList i initialElement h =
     (case ensure ClassInteger [i] of
        Some err \<Rightarrow> (Inl err, h)
      | None \<Rightarrow>
          if length initialElement > 1 then (Inl ArityError, h)
          else
            (let elm = (if length initialElement = 1 then initialElement ! 0 else Null) in
             case i of
               Integer n \<Rightarrow>
                 (case CreateList_loop 0 (sint n) elm Null h of (cons, h') \<Rightarrow> (Inr cons, h'))
             | _ \<Rightarrow> (Inl (DomainError i ClassInteger), h)))"

subsection \<open>\<open>List\<close>\<close>




subsection \<open>\<open>Reverse\<close> and \<open>Nreverse\<close>\<close>

text \<open>\<open>for _, car := range list.(instance.List).Slice() { cons = instance.NewCons(car, cons) }\<close>\<close>

fun Reverse_loop :: "Instance list \<Rightarrow> Instance \<Rightarrow> store \<Rightarrow> Instance \<times> store" where
  "Reverse_loop [] cons h = (cons, h)"
| "Reverse_loop (car # rest) cons h =
     (case NewCons car cons h of (c, h') \<Rightarrow> Reverse_loop rest c h')"

definition Reverse :: "Instance \<Rightarrow> store \<Rightarrow> ((condition + Instance) \<times> store) option" where
  "Reverse list h =
     (case ensure ClassList [list] of
        Some err \<Rightarrow> Some (Inl err, h)
      | None \<Rightarrow>
          (case Slice h list of
             None \<Rightarrow> None
           | Some s \<Rightarrow> (case Reverse_loop s Null h of (cons, h') \<Rightarrow> Some (Inr cons, h'))))"

fun Nreverse_loop :: "Instance list \<Rightarrow> Instance \<Rightarrow> store \<Rightarrow> Instance \<times> store" where
  "Nreverse_loop [] cons h = (cons, h)"
| "Nreverse_loop (car # rest) cons h =
     (case NewCons car cons h of (c, h') \<Rightarrow> Nreverse_loop rest c h')"

definition Nreverse :: "Instance \<Rightarrow> store \<Rightarrow> ((condition + Instance) \<times> store) option" where
  "Nreverse list h =
     (case ensure ClassList [list] of
        Some err \<Rightarrow> Some (Inl err, h)
      | None \<Rightarrow>
          (case Slice h list of
             None \<Rightarrow> None
           | Some s \<Rightarrow> (case Nreverse_loop s Null h of (cons, h') \<Rightarrow> Some (Inr cons, h'))))"

subsection \<open>\<open>Mapcar\<close>\<close>








text \<open>
  To speak about the calls that \<open>Mapcar\<close> makes, a callee is wrapped so that it records
  each call in its own part of the state: the store before the call, the arguments and
  what the call returned.  \<open>Mapcar\<close> itself is unchanged.
\<close>

type_synonym call = "store \<times> Instance list \<times> (condition + Instance)"





section \<open>General arrays (\<open>GeneralArrayStar\<close>)\<close>

text \<open>
  \<open>type GeneralArrayStar struct { dimension [128]int; array map[[128]int]ilos.Instance }\<close>.
  A \<open>[128]int\<close> is a list of 128 words; the map is a partial function, and reading a
  key that is absent gives Go's \<open>nil\<close>, here \<open>None\<close>.
\<close>

record GeneralArrayStar =
  dimension :: "64 word list"
  array :: "64 word list \<Rightarrow> Instance option"

text \<open>
  What stops a Go function without a return: an index outside an array, or a type
  assertion on a value of another type.  \<open>InvalidAddress\<close> stands for a cons pointer
  that is not in the store, which no Go value is.
\<close>

datatype panic = IndexOutOfRange | TypeAssertion | InvalidAddress

text \<open>
  The loop that copies the key into the index buffer, in both methods:
  \<^verbatim>\<open>
  for Of(class.Cons, cdr) {
      dim[idx] = int(UnsafeCar(cdr).(Integer))
      cdr = UnsafeCdr(cdr)
      idx++
  }
  \<close>
  The right-hand side is evaluated before the store into \<open>dim[idx]\<close> is made, so the type
  assertion is tried first.  The buffer has 128 places; \<open>idx\<close> grows by one each round, so
  the loop makes at most 129 rounds, also on a cyclic key.
\<close>

function index_loop ::
  "store \<Rightarrow> Instance \<Rightarrow> 64 word list \<Rightarrow> nat \<Rightarrow> panic + 64 word list" where
  "index_loop h cdr dim idx =
     (case cdr of
        ConsRef a \<Rightarrow>
          (if length h \<le> a then Inl InvalidAddress
           else
             (case Car (h ! a) of
                Integer n \<Rightarrow>
                  if idx < 128 then index_loop h (Cdr (h ! a)) (dim[idx := n]) (idx + 1)
                  else Inl IndexOutOfRange
              | _ \<Rightarrow> Inl TypeAssertion))
      | _ \<Rightarrow> Inr dim)"
  by pat_completeness auto
termination
  by (relation "measure (\<lambda>(h, cdr, dim, idx). 128 - idx)") auto

declare index_loop.simps [simp del]

text \<open>
  \<open>for i := 0; i < 128; i++ { if a.dimension[i] != 0 && dim[i] >= a.dimension[i] { return ..., false } }\<close>:
  \<open>True\<close> when the loop runs to its end.
\<close>

function in_bounds :: "64 word list \<Rightarrow> 64 word list \<Rightarrow> nat \<Rightarrow> bool" where
  "in_bounds dims dim i =
     (if i < 128
      then (if dims ! i \<noteq> 0 \<and> sint (dims ! i) \<le> sint (dim ! i) then False
            else in_bounds dims dim (i + 1))
      else True)"
  by pat_completeness auto
termination
  by (relation "measure (\<lambda>(dims, dim, i). 128 - i)") auto

declare in_bounds.simps [simp del]

text \<open>
  \<open>for i := 128; i > 0; i-- { if a.dimension[i-1] != 0 { cons = NewCons(NewInteger(a.dimension[i-1]), cons) } }\<close>
\<close>

fun length_loop :: "64 word list \<Rightarrow> nat \<Rightarrow> Instance \<Rightarrow> store \<Rightarrow> Instance \<times> store" where
  "length_loop dims 0 cons h = (cons, h)"
| "length_loop dims (Suc i) cons h =
     (if dims ! i \<noteq> 0
      then (case NewCons (Integer (dims ! i)) cons h of (c, h') \<Rightarrow> length_loop dims i c h')
      else length_loop dims i cons h)"

text \<open>
  \<open>GetSlotValue\<close> returns the pair (value, ok), where the value may be Go's \<open>nil\<close>, and
  the store, in which the \<open>LENGTH\<close> branch allocates.
\<close>

definition GetSlotValue ::
  "GeneralArrayStar \<Rightarrow> Instance \<Rightarrow> store \<Rightarrow> panic + ((Instance option \<times> bool) \<times> store)" where
  "GetSlotValue a key h =
     (if key = Symbol ''LENGTH''
      then (case length_loop (dimension a) 128 Null h of (cons, h') \<Rightarrow> Inr ((Some cons, True), h'))
      else if InstanceOf ClassList key
      then
        (case index_loop h key (replicate 128 0) 0 of
           Inl p \<Rightarrow> Inl p
         | Inr dim \<Rightarrow>
             if in_bounds (dimension a) dim 0 then Inr ((array a dim, True), h)
             else Inr ((None, False), h))
      else Inr ((None, False), h))"

text \<open>\<open>SetSlotValue\<close> returns its boolean and the array after the call.\<close>

definition SetSlotValue ::
  "GeneralArrayStar \<Rightarrow> Instance \<Rightarrow> Instance \<Rightarrow> store \<Rightarrow> panic + (bool \<times> GeneralArrayStar)" where
  "SetSlotValue a key v h =
     (if InstanceOf ClassList key
      then
        (case index_loop h key (replicate 128 0) 0 of
           Inl p \<Rightarrow> Inl p
         | Inr dim \<Rightarrow>
             if in_bounds (dimension a) dim 0 then Inr (True, a\<lparr>array := (array a)(dim \<mapsto> v)\<rparr>)
             else Inr (False, a))
      else Inr (False, a))"

section \<open>The evaluator\<close>

text \<open>
  The evaluator itself (\<open>Eval\<close> and the reducers of the special forms) is not in
  \<open>src/\<close>; only its tests are.  It is modelled from the specification, sections 3 and 4:
  objects, environments, control tokens, the reduction rules and the contracts of the
  reducers.  The reader is outside the core: forms are given as objects, with the symbols
  in upper case as the reader delivers them (the test binds \<open>INC\<close> and reads \<open>inc\<close>),
  and \<open>'x\<close> already expanded to \<open>(quote x)\<close>.
\<close>

text \<open>
  Modelled from the spec: the value representation of the evaluator is missing.  Section
  3.1: a value is a tagged union; a cons owns its car and cdr; a callable is a closure
  (parameters, the name after \<open>:rest\<close> if any, body, captured environment) or a native
  function, named here by its number in a table of host routines.  Section 3.3: an
  environment holds independent namespaces, each searched innermost binding first; the
  namespaces that the modelled forms use are kept.  A tagbody label is bound to the
  identity of the tagbody frame that owns it.
\<close>

datatype object =
    ObjNull
  | ObjT
  | ObjInteger "64 word"
  | ObjSymbol string
  | ObjCons object object
  | ObjClosure "string list" "string option" "object list" env
  | ObjNative nat
and env =
  Env (VariableNS: "(string \<times> object) list")
      (FunctionNS: "(string \<times> object) list")
      (MacroNS: "(string \<times> object) list")
      (TagbodyTagNS: "(string \<times> nat) list")
      (CatchTagNS: "object list")

text \<open>
  Modelled from the spec: the condition classes are missing.  Section 7 names them; the
  reducers below signal these.
\<close>

datatype serious_condition =
    unbound_variable string
  | undefined_function object
  | undefined_tag string
  | arity_error
  | domain_error object

text \<open>
  Modelled from the spec: the control tokens are missing.  Section 3.4: \<open>Return\<close> with
  block tag and value, \<open>Goto\<close> with tagbody identity and label, \<open>Throw\<close> with catch tag
  and value, \<open>Condition\<close> with the condition.
\<close>

datatype token =
    Return nat object
  | Goto nat string
  | Throw object object
  | Condition serious_condition

text \<open>
  Modelled from the spec: the result of an evaluation step is missing.  Section 4.2:
  exactly one of a value and a token is present.
\<close>

datatype result = Val object | Tok token

text \<open>
  Modelled from the spec: the calling convention of native functions is missing.  Section
  6: a native function receives the arguments as a list and the current environment and
  returns a value or a control token.  A host routine that does not return (a Go panic)
  has the result \<open>None\<close>.
\<close>

type_synonym natives = "nat \<Rightarrow> object \<Rightarrow> env \<Rightarrow> result option"

text \<open>
  Modelled from the spec: the helpers on lists are missing.  A proper list is a chain of
  conses that ends in \<open>nil\<close>; \<open>list_of\<close> gives its elements and has no result on a
  dotted list, \<open>of_list\<close> builds the proper list of the given elements.
\<close>

fun list_of :: "object \<Rightarrow> object list option" where
  "list_of ObjNull = Some []"
| "list_of (ObjCons a d) = (case list_of d of None \<Rightarrow> None | Some r \<Rightarrow> Some (a # r))"
| "list_of _ = None"

text \<open>Modelled from the spec: see \<open>list_of\<close>.\<close>

fun of_list :: "object list \<Rightarrow> object" where
  "of_list [] = ObjNull"
| "of_list (x # xs) = ObjCons x (of_list xs)"

text \<open>
  Modelled from the spec: \<open>eql\<close> is missing.  Section 3.1: symbols with the same
  spelling are the same value; numbers are \<open>eql\<close> when they have the same class and
  value.  The identity of a cons or a closure is not represented in this model, and two
  of them are never \<open>eql\<close> here.
\<close>

fun eql :: "object \<Rightarrow> object \<Rightarrow> bool" where
  "eql ObjNull ObjNull = True"
| "eql ObjT ObjT = True"
| "eql (ObjInteger m) (ObjInteger n) = (m = n)"
| "eql (ObjSymbol s) (ObjSymbol t) = (s = t)"
| "eql (ObjNative i) (ObjNative j) = (i = j)"
| "eql _ _ = False"

text \<open>
  Modelled from the spec: the lookup of the environment stack is missing.  Section 4.1:
  it searches the frames from the innermost out and falls through to the top level.
\<close>

definition lookup :: "(env \<Rightarrow> (string \<times> 'a) list) \<Rightarrow> env \<Rightarrow> env \<Rightarrow> string \<Rightarrow> 'a option" where
  "lookup ns local global s =
     (case map_of (ns local) s of Some v \<Rightarrow> Some v | None \<Rightarrow> map_of (ns global) s)"

text \<open>
  Modelled from the spec: the test for symbols is missing.  Section 3.1: \<open>nil\<close> is also
  the symbol named \<open>NIL\<close>.
\<close>

fun symbol_name :: "object \<Rightarrow> string option" where
  "symbol_name (ObjSymbol s) = Some s"
| "symbol_name ObjNull = Some ''NIL''"
| "symbol_name _ = None"

text \<open>
  Modelled from the spec: the scan of a tagbody body is missing.  Section 4.3: the body is
  a sequence of labels (symbols) and statements (non-symbols); each label is mapped to its
  index.
\<close>

fun labels :: "object list \<Rightarrow> string list" where
  "labels [] = []"
| "labels (x # xs) = (case symbol_name x of Some s \<Rightarrow> s # labels xs | None \<Rightarrow> labels xs)"

text \<open>Modelled from the spec: see \<open>labels\<close>; the index of the first label of that name.\<close>

fun label_index :: "string \<Rightarrow> object list \<Rightarrow> nat option" where
  "label_index l [] = None"
| "label_index l (x # xs) =
     (if symbol_name x = Some l then Some 0
      else (case label_index l xs of None \<Rightarrow> None | Some j \<Rightarrow> Some (Suc j)))"

text \<open>
  Modelled from the spec: the parsing of a parameter list is missing.  Section 4.2: the
  required parameters, then optionally \<open>&rest\<close> or \<open>:rest\<close> and a single symbol.
\<close>

definition is_rest :: "string \<Rightarrow> bool" where
  "is_rest s = (s = '':REST'' \<or> s = ''&REST'')"

text \<open>Modelled from the spec: see \<open>is_rest\<close>.\<close>

fun parse_params :: "object list \<Rightarrow> (string list \<times> string option) option" where
  "parse_params [] = Some ([], None)"
| "parse_params (ObjSymbol x # ps) =
     (if is_rest x
      then (case ps of [ObjSymbol r] \<Rightarrow> if is_rest r then None else Some ([], Some r) | _ \<Rightarrow> None)
      else (case parse_params ps of None \<Rightarrow> None | Some (xs, r) \<Rightarrow> Some (x # xs, r)))"
| "parse_params _ = None"

text \<open>
  Modelled from the spec: the frames of the environment stack are missing.  A new frame
  puts its bindings in front of the older ones of its namespace.
\<close>

definition bind_variables :: "(string \<times> object) list \<Rightarrow> env \<Rightarrow> env" where
  "bind_variables bs e = Env (bs @ VariableNS e) (FunctionNS e) (MacroNS e) (TagbodyTagNS e) (CatchTagNS e)"

text \<open>Modelled from the spec: see \<open>bind_variables\<close>; every label is bound to the frame.\<close>

definition install_tagbody :: "nat \<Rightarrow> string list \<Rightarrow> env \<Rightarrow> env" where
  "install_tagbody ident ls e =
     Env (VariableNS e) (FunctionNS e) (MacroNS e) (map (\<lambda>l. (l, ident)) ls @ TagbodyTagNS e) (CatchTagNS e)"

text \<open>Modelled from the spec: see \<open>bind_variables\<close>; the catch frame is keyed by the tag.\<close>

definition install_catch :: "object \<Rightarrow> env \<Rightarrow> env" where
  "install_catch tag e = Env (VariableNS e) (FunctionNS e) (MacroNS e) (TagbodyTagNS e) (tag # CatchTagNS e)"

text \<open>
  Modelled from the spec: the binding of parameters is missing.  Section 4.2, Apply, steps
  1 and 2: the required parameters are bound by position, the rest parameter to the
  remaining arguments as a proper list; \<open>None\<close> is the arity mismatch.
\<close>

definition bind_parameters ::
  "string list \<Rightarrow> string option \<Rightarrow> object list \<Rightarrow> (string \<times> object) list option" where
  "bind_parameters ps r args =
     (case r of
        None \<Rightarrow> if length args = length ps then Some (zip ps args) else None
      | Some x \<Rightarrow>
          if length ps \<le> length args
          then Some (zip ps (take (length ps) args) @ [(x, of_list (drop (length ps) args))])
          else None)"

text \<open>
  Modelled from the spec: \<open>Eval\<close> is missing.  An evaluation may run forever (a
  \<open>tagbody\<close> can loop), so \<open>Eval\<close> takes a bound on the depth of nested evaluations and
  on the steps of each tagbody; the result \<open>None\<close> says that the bound was too small (or
  that a host routine did not return, or that the form is malformed in a way for which
  the specification names no condition).  The natural number threaded through the
  evaluation is the supply of fresh tagbody identities.  The reducers take the evaluator
  for the sub-forms as an argument.
\<close>

type_synonym evaluator = "object \<Rightarrow> env \<Rightarrow> nat \<Rightarrow> (result \<times> nat) option"

text \<open>
  Modelled from the spec: \<open>progn\<close> is missing.  Section 4.3: evaluate in order, return the
  last value (\<open>nil\<close> if there is no form); a token ends the sequence.
\<close>

primrec progn :: "evaluator \<Rightarrow> object list \<Rightarrow> env \<Rightarrow> nat \<Rightarrow> (result \<times> nat) option" where
  "progn ev [] e k = Some (Val ObjNull, k)"
| "progn ev (f # fs) e k =
     (case ev f e k of
        None \<Rightarrow> None
      | Some (Tok t, k1) \<Rightarrow> Some (Tok t, k1)
      | Some (Val v, k1) \<Rightarrow> if fs = [] then Some (Val v, k1) else progn ev fs e k1)"

text \<open>
  Modelled from the spec: the evaluation of arguments is missing.  Section 4.2: left to
  right; a token produced by an argument short-circuits the remaining ones and the call.
\<close>

primrec evlis :: "evaluator \<Rightarrow> object list \<Rightarrow> env \<Rightarrow> nat \<Rightarrow> ((token + object list) \<times> nat) option" where
  "evlis ev [] e k = Some (Inr [], k)"
| "evlis ev (f # fs) e k =
     (case ev f e k of
        None \<Rightarrow> None
      | Some (Tok t, k1) \<Rightarrow> Some (Inl t, k1)
      | Some (Val v, k1) \<Rightarrow>
          (case evlis ev fs e k1 of
             None \<Rightarrow> None
           | Some (Inl t, k2) \<Rightarrow> Some (Inl t, k2)
           | Some (Inr vs, k2) \<Rightarrow> Some (Inr (v # vs), k2)))"

text \<open>
  Modelled from the spec: the reducer of \<open>tagbody\<close> is missing.  Section 4.3: evaluate the
  statements in order; a \<open>Goto\<close> token of this tagbody resumes at the index of its label;
  completion returns \<open>nil\<close>; tokens for other tagbodies propagate.
\<close>

primrec tagbody_run ::
  "evaluator \<Rightarrow> nat \<Rightarrow> nat \<Rightarrow> object list \<Rightarrow> nat \<Rightarrow> env \<Rightarrow> nat \<Rightarrow> (result \<times> nat) option" where
  "tagbody_run ev 0 ident items pc e k = None"
| "tagbody_run ev (Suc n) ident items pc e k =
     (if length items \<le> pc then Some (Val ObjNull, k)
      else if symbol_name (items ! pc) \<noteq> None then tagbody_run ev n ident items (Suc pc) e k
      else
        (case ev (items ! pc) e k of
           None \<Rightarrow> None
         | Some (Val _, k1) \<Rightarrow> tagbody_run ev n ident items (Suc pc) e k1
         | Some (Tok (Goto ident' l), k1) \<Rightarrow>
             (if ident' = ident then
                (case label_index l items of
                   Some j \<Rightarrow> tagbody_run ev n ident items j e k1
                 | None \<Rightarrow> Some (Tok (Goto ident' l), k1))
              else Some (Tok (Goto ident' l), k1))
         | Some (Tok t, k1) \<Rightarrow> Some (Tok t, k1)))"

text \<open>
  Modelled from the spec: the reducer of \<open>if\<close> is missing.  Section 4.3: evaluate the
  condition; if it is not \<open>nil\<close> evaluate the first branch, else the second (or return
  \<open>nil\<close>).
\<close>

definition reduce_if :: "evaluator \<Rightarrow> object list \<Rightarrow> env \<Rightarrow> nat \<Rightarrow> (result \<times> nat) option" where
  "reduce_if ev args e k =
     (case args of
        c # th # el \<Rightarrow>
          (if length el \<le> 1 then
             (case ev c e k of
                None \<Rightarrow> None
              | Some (Tok t, k1) \<Rightarrow> Some (Tok t, k1)
              | Some (Val v, k1) \<Rightarrow>
                  if v \<noteq> ObjNull then ev th e k1
                  else (case el of [] \<Rightarrow> Some (Val ObjNull, k1) | x # _ \<Rightarrow> ev x e k1))
           else None)
      | _ \<Rightarrow> None)"

text \<open>
  Modelled from the spec: the reducer of \<open>lambda\<close> is missing.  Section 4.3: a closure
  that captures the environment and carries the parameters and the body.
\<close>

definition reduce_lambda :: "object list \<Rightarrow> env \<Rightarrow> nat \<Rightarrow> (result \<times> nat) option" where
  "reduce_lambda args e k =
     (case args of
        [] \<Rightarrow> None
      | ps # body \<Rightarrow>
          (case list_of ps of
             None \<Rightarrow> None
           | Some pl \<Rightarrow>
               (case parse_params pl of
                  None \<Rightarrow> None
                | Some (xs, r) \<Rightarrow> Some (Val (ObjClosure xs r body e), k))))"

text \<open>
  Modelled from the spec: see \<open>tagbody_run\<close>.  The frame gets a fresh identity and binds
  each label of the body to it.
\<close>

definition reduce_tagbody ::
  "evaluator \<Rightarrow> nat \<Rightarrow> object list \<Rightarrow> env \<Rightarrow> nat \<Rightarrow> (result \<times> nat) option" where
  "reduce_tagbody ev n args e k =
     tagbody_run ev n k args 0 (install_tagbody k (labels args) e) (Suc k)"

text \<open>
  Modelled from the spec: the reducer of \<open>go\<close> is missing.  Section 4.3: emit \<open>Goto\<close> for
  the innermost tagbody that owns the label; signal \<open>undefined-tag\<close> if none does.
\<close>

definition reduce_go :: "env \<Rightarrow> object list \<Rightarrow> env \<Rightarrow> nat \<Rightarrow> (result \<times> nat) option" where
  "reduce_go global args e k =
     (case args of
        [l] \<Rightarrow>
          (case symbol_name l of
             None \<Rightarrow> None
           | Some s \<Rightarrow>
               (case lookup TagbodyTagNS e global s of
                  Some ident \<Rightarrow> Some (Tok (Goto ident s), k)
                | None \<Rightarrow> Some (Tok (Condition (undefined_tag s)), k)))
      | _ \<Rightarrow> None)"

text \<open>
  Modelled from the spec: the reducer of \<open>catch\<close> is missing.  Section 4.3: evaluate the
  tag expression, install the catch frame, evaluate the body, absorb a \<open>Throw\<close> whose tag
  is \<open>eql\<close> to the tag of this frame.
\<close>

definition reduce_catch :: "evaluator \<Rightarrow> object list \<Rightarrow> env \<Rightarrow> nat \<Rightarrow> (result \<times> nat) option" where
  "reduce_catch ev args e k =
     (case args of
        [] \<Rightarrow> None
      | tag_expr # body \<Rightarrow>
          (case ev tag_expr e k of
             None \<Rightarrow> None
           | Some (Tok t, k1) \<Rightarrow> Some (Tok t, k1)
           | Some (Val tag, k1) \<Rightarrow>
               (case progn ev body (install_catch tag e) k1 of
                  None \<Rightarrow> None
                | Some (Tok (Throw tag' v), k2) \<Rightarrow>
                    if eql tag' tag then Some (Val v, k2) else Some (Tok (Throw tag' v), k2)
                | Some (r, k2) \<Rightarrow> Some (r, k2))))"

text \<open>Modelled from the spec: the reducer of \<open>throw\<close> is missing.  Section 4.3: emit \<open>Throw\<close>.\<close>

definition reduce_throw :: "evaluator \<Rightarrow> object list \<Rightarrow> env \<Rightarrow> nat \<Rightarrow> (result \<times> nat) option" where
  "reduce_throw ev args e k =
     (case args of
        [tag_expr, value_expr] \<Rightarrow>
          (case ev tag_expr e k of
             None \<Rightarrow> None
           | Some (Tok t, k1) \<Rightarrow> Some (Tok t, k1)
           | Some (Val tag, k1) \<Rightarrow>
               (case ev value_expr e k1 of
                  None \<Rightarrow> None
                | Some (Tok t, k2) \<Rightarrow> Some (Tok t, k2)
                | Some (Val v, k2) \<Rightarrow> Some (Tok (Throw tag v), k2)))
      | _ \<Rightarrow> None)"

text \<open>
  Modelled from the spec: \<open>apply\<close> is missing.  Section 4.2, Apply: bind the parameters
  in a fresh frame on the captured environment, signal \<open>arity-error\<close> on a mismatch,
  evaluate the body forms in order.  A native function gets the argument list and the
  current environment.
\<close>

definition apply_function ::
  "natives \<Rightarrow> evaluator \<Rightarrow> object \<Rightarrow> object list \<Rightarrow> env \<Rightarrow> nat \<Rightarrow> (result \<times> nat) option" where
  "apply_function ntv ev callable args e k =
     (case callable of
        ObjClosure ps r body cenv \<Rightarrow>
          (case bind_parameters ps r args of
             None \<Rightarrow> Some (Tok (Condition arity_error), k)
           | Some bs \<Rightarrow> progn ev body (bind_variables bs cenv) k)
      | ObjNative i \<Rightarrow>
          (case ntv i (of_list args) e of None \<Rightarrow> None | Some r \<Rightarrow> Some (r, k))
      | _ \<Rightarrow> Some (Tok (Condition (domain_error callable)), k))"

text \<open>
  Modelled from the spec: the evaluation of the head of a call is missing.  Section 4.2,
  rule 3: the head is evaluated in the function namespace to a callable; a head that is
  itself a \<open>lambda\<close> form gives its closure.
\<close>

definition eval_function :: "env \<Rightarrow> evaluator \<Rightarrow> object \<Rightarrow> env \<Rightarrow> nat \<Rightarrow> (result \<times> nat) option" where
  "eval_function global ev head e k =
     (case head of
        ObjSymbol f \<Rightarrow>
          (case lookup FunctionNS e global f of
             Some c \<Rightarrow> Some (Val c, k)
           | None \<Rightarrow> Some (Tok (Condition (undefined_function head)), k))
      | ObjCons h _ \<Rightarrow>
          if h = ObjSymbol ''LAMBDA'' then ev head e k
          else Some (Tok (Condition (undefined_function head)), k)
      | _ \<Rightarrow> Some (Tok (Condition (undefined_function head)), k))"

text \<open>Modelled from the spec: the function call is missing.  Section 4.2, rule 3, last case.\<close>

definition eval_call ::
  "natives \<Rightarrow> env \<Rightarrow> evaluator \<Rightarrow> object \<Rightarrow> object list \<Rightarrow> env \<Rightarrow> nat \<Rightarrow> (result \<times> nat) option" where
  "eval_call ntv global ev head args e k =
     (case eval_function global ev head e k of
        None \<Rightarrow> None
      | Some (Tok t, k1) \<Rightarrow> Some (Tok t, k1)
      | Some (Val callable, k1) \<Rightarrow>
          (case evlis ev args e k1 of
             None \<Rightarrow> None
           | Some (Inl t, k2) \<Rightarrow> Some (Tok t, k2)
           | Some (Inr vs, k2) \<Rightarrow> apply_function ntv ev callable vs e k2))"

text \<open>
  Modelled from the spec: the dispatch on the head of a form is missing.  Section 4.2,
  rule 3: special form, else macro (expand once, evaluate the expansion in the same
  environment), else function call.  The special forms modelled are \<open>quote\<close>, \<open>if\<close>,
  \<open>progn\<close>, \<open>lambda\<close>, \<open>tagbody\<close>, \<open>go\<close>, \<open>catch\<close> and \<open>throw\<close>.
\<close>

definition eval_cons ::
  "natives \<Rightarrow> env \<Rightarrow> nat \<Rightarrow> evaluator \<Rightarrow> object \<Rightarrow> object list \<Rightarrow> env \<Rightarrow> nat \<Rightarrow> (result \<times> nat) option" where
  "eval_cons ntv global n ev head args e k =
     (if head = ObjSymbol ''QUOTE'' then (case args of [x] \<Rightarrow> Some (Val x, k) | _ \<Rightarrow> None)
      else if head = ObjSymbol ''IF'' then reduce_if ev args e k
      else if head = ObjSymbol ''PROGN'' then progn ev args e k
      else if head = ObjSymbol ''LAMBDA'' then reduce_lambda args e k
      else if head = ObjSymbol ''TAGBODY'' then reduce_tagbody ev n args e k
      else if head = ObjSymbol ''GO'' then reduce_go global args e k
      else if head = ObjSymbol ''CATCH'' then reduce_catch ev args e k
      else if head = ObjSymbol ''THROW'' then reduce_throw ev args e k
      else
        (case (case head of ObjSymbol f \<Rightarrow> lookup MacroNS e global f | _ \<Rightarrow> None) of
           Some expander \<Rightarrow>
             (case apply_function ntv ev expander args e k of
                None \<Rightarrow> None
              | Some (Tok t, k1) \<Rightarrow> Some (Tok t, k1)
              | Some (Val form', k1) \<Rightarrow> ev form' e k1)
         | None \<Rightarrow> eval_call ntv global ev head args e k))"

text \<open>
  Modelled from the spec: the reduction of a form is missing.  Section 4.2, rules 1 to 3:
  a symbol is looked up in the variable namespace (\<open>unbound-variable\<close> if missing), a cons
  is dispatched on its head, everything else evaluates to itself.
\<close>

definition eval_form ::
  "natives \<Rightarrow> env \<Rightarrow> nat \<Rightarrow> evaluator \<Rightarrow> object \<Rightarrow> env \<Rightarrow> nat \<Rightarrow> (result \<times> nat) option" where
  "eval_form ntv global n ev form e k =
     (case form of
        ObjSymbol s \<Rightarrow>
          (case lookup VariableNS e global s of
             Some v \<Rightarrow> Some (Val v, k)
           | None \<Rightarrow> Some (Tok (Condition (unbound_variable s)), k))
      | ObjCons head rest \<Rightarrow>
          (case list_of rest of
             None \<Rightarrow> None
           | Some args \<Rightarrow> eval_cons ntv global n ev head args e k)
      | _ \<Rightarrow> Some (Val form, k))"

text \<open>Modelled from the spec: see \<open>evaluator\<close>.  \<open>Eval\<close> with the bound \<open>n\<close>.\<close>

primrec Eval :: "natives \<Rightarrow> env \<Rightarrow> nat \<Rightarrow> evaluator" where
  "Eval ntv global 0 = (\<lambda>form e k. None)"
| "Eval ntv global (Suc n) = eval_form ntv global n (Eval ntv global n)"

subsection \<open>The forms and the environment of the tests (\<open>eval_test.go\<close>)\<close>

text \<open>
  The native function of the test:
  \<^verbatim>\<open>
  inc := func(args ilos.Instance, local *env.Environment, global *env.Environment) (ilos.Instance, ilos.Instance) {
      car := instance.UnsafeCar(args)
      return instance.New(class.Integer, int(car.(instance.Integer))+1), nil
  }
  \<close>
  On an argument list whose first element is not an integer the type assertion stops it.
\<close>

definition inc :: "object \<Rightarrow> env \<Rightarrow> result option" where
  "inc args local =
     (case args of
        ObjCons (ObjInteger car) _ \<Rightarrow> Some (Val (ObjInteger (car + 1)))
      | _ \<Rightarrow> None)"

text \<open>
  \<open>local.Function.Define(instance.New(class.Symbol, "INC"), instance.New(class.Function, inc))\<close>.
  The test also binds the variable \<open>PI\<close> and the macro \<open>MINC\<close>; the forms
  considered here use neither.
\<close>

definition test_natives :: natives where
  "test_natives i = inc"

definition test_local :: env where
  "test_local = Env [] [(''INC'', ObjNative 0)] [] [] []"

definition test_global :: env where
  "test_global = Env [] [] [] [] []"

text \<open>The forms that the tests read, as the reader delivers them.\<close>

definition quote :: "object \<Rightarrow> object" where
  "quote x = of_list [ObjSymbol ''QUOTE'', x]"

definition form_inc_inc :: object where
  "form_inc_inc = of_list [ObjSymbol ''INC'', of_list [ObjSymbol ''INC'', ObjInteger 1]]"

definition form_lambda_empty :: "object \<Rightarrow> object" where
  "form_lambda_empty a = of_list [of_list [ObjSymbol ''LAMBDA'', of_list [ObjSymbol ''X'']], a]"

definition form_lambda_rest :: "object list \<Rightarrow> object" where
  "form_lambda_rest args =
     of_list (of_list [ObjSymbol ''LAMBDA'', of_list [ObjSymbol '':REST'', ObjSymbol ''XS''],
                       ObjSymbol ''XS''] # args)"

text \<open>
  The same closure with more body forms before the last one:
  \<open>((lambda (:rest xs) b1 ... bn xs) a1 ... am)\<close>.
\<close>

definition form_lambda_body :: "object list \<Rightarrow> object list \<Rightarrow> object" where
  "form_lambda_body body args =
     of_list (of_list (ObjSymbol ''LAMBDA'' # of_list [ObjSymbol '':REST'', ObjSymbol ''XS''] #
                       body @ [ObjSymbol ''XS'']) # args)"


definition form_nested_tagbody :: object where
  "form_nested_tagbody =
     of_list [ObjSymbol ''CATCH'', quote (ObjSymbol ''FOO''),
       of_list [ObjSymbol ''TAGBODY'',
         of_list [ObjSymbol ''TAGBODY'',
           of_list [ObjSymbol ''GO'', ObjSymbol ''BAR''],
           of_list [ObjSymbol ''THROW'', quote (ObjSymbol ''FOO''), ObjInteger 1],
           ObjSymbol ''BAR'',
           of_list [ObjSymbol ''GO'', ObjSymbol ''FOOBAR'']],
         ObjSymbol ''FOOBAR'']]"

text \<open>
  Two tagbodies with the same label \<open>L\<close>:
  \<open>(catch 'foo (tagbody (tagbody (go l) l (throw 'foo 1)) l (throw 'foo 2)))\<close>.
\<close>

definition form_same_label :: object where
  "form_same_label =
     of_list [ObjSymbol ''CATCH'', quote (ObjSymbol ''FOO''),
       of_list [ObjSymbol ''TAGBODY'',
         of_list [ObjSymbol ''TAGBODY'',
           of_list [ObjSymbol ''GO'', ObjSymbol ''L''],
           ObjSymbol ''L'',
           of_list [ObjSymbol ''THROW'', quote (ObjSymbol ''FOO''), ObjInteger 1]],
         ObjSymbol ''L'',
         of_list [ObjSymbol ''THROW'', quote (ObjSymbol ''FOO''), ObjInteger 2]]]"

text \<open>
  A \<open>go\<close> that runs inside a tagbody which is not the one it was written in: the
  closure \<open>(lambda () (go l))\<close>, made in the environment \<open>cenv\<close> (where some tagbody
  frame owns \<open>L\<close>), bound to the function name \<open>G\<close>, and called from the body of another
  tagbody, \<open>(tagbody (g) item...)\<close>; with the items \<open>l (throw 'foo 1)\<close> and a catch
  around it this is \<open>(catch 'foo (tagbody (g) l (throw 'foo 1)))\<close>.  \<open>go_env\<close> is
  such an environment: inside the frame number 0, which owns \<open>L\<close>, with \<open>G\<close> made there.
\<close>

definition go_closure :: "env \<Rightarrow> object" where
  "go_closure cenv = ObjClosure [] None [of_list [ObjSymbol ''GO'', ObjSymbol ''L'']] cenv"

definition form_tagbody_call :: "object list \<Rightarrow> object" where
  "form_tagbody_call items = of_list (ObjSymbol ''TAGBODY'' # of_list [ObjSymbol ''G''] # items)"

definition form_foreign_go :: object where
  "form_foreign_go =
     of_list [ObjSymbol ''CATCH'', quote (ObjSymbol ''FOO''),
       of_list [ObjSymbol ''TAGBODY'',
         of_list [ObjSymbol ''G''],
         ObjSymbol ''L'',
         of_list [ObjSymbol ''THROW'', quote (ObjSymbol ''FOO''), ObjInteger 1]]]"

definition go_env :: env where
  "go_env = Env [] [(''G'', go_closure (Env [] [] [] [(''L'', 0)] []))] [] [(''L'', 0)] []"

text \<open>A tagbody whose first statement is a \<open>go\<close>: \<open>(tagbody (go l) item...)\<close>.\<close>

definition form_tagbody_go :: "string \<Rightarrow> object list \<Rightarrow> object" where
  "form_tagbody_go l items =
     of_list (ObjSymbol ''TAGBODY'' # of_list [ObjSymbol ''GO'', ObjSymbol l] # items)"

text \<open>
  Closures with required parameters before the rest parameter,
  \<open>((lambda (p1 ... pn :rest xs) xs) a1 ... am)\<close>; with required parameters only and
  an empty body, \<open>((lambda (p1 ... pn)) a1 ... an)\<close>; and with a \<open>throw\<close> in the middle
  of the body, \<open>((lambda (:rest xs) b1 ... bn (throw 'foo v) c1 ... cm) a1 ...)\<close>.
\<close>

definition form_lambda_params :: "string list \<Rightarrow> object list \<Rightarrow> object" where
  "form_lambda_params ps args =
     of_list (of_list [ObjSymbol ''LAMBDA'',
                       of_list (map ObjSymbol ps @ [ObjSymbol '':REST'', ObjSymbol ''XS'']),
                       ObjSymbol ''XS''] # args)"

definition form_lambda_no_body :: "string list \<Rightarrow> object list \<Rightarrow> object" where
  "form_lambda_no_body ps args =
     of_list (of_list [ObjSymbol ''LAMBDA'', of_list (map ObjSymbol ps)] # args)"

definition form_lambda_throw :: "object list \<Rightarrow> object \<Rightarrow> object list \<Rightarrow> object list \<Rightarrow> object" where
  "form_lambda_throw before v after args =
     of_list (of_list (ObjSymbol ''LAMBDA'' # of_list [ObjSymbol '':REST'', ObjSymbol ''XS''] #
                       before @ [of_list [ObjSymbol ''THROW'', quote (ObjSymbol ''FOO''), v]] @
                       after) # args)"

section \<open>Sample data\<close>

text \<open>A store with the list \<open>(3 t)\<close> at the address 1.\<close>

definition sample_store :: store where
  "sample_store = [\<lparr>Car = T, Cdr = Null\<rparr>, \<lparr>Car = Integer 3, Cdr = ConsRef 0\<rparr>]"

section \<open>Comparing evaluators\<close>

text \<open>
  \<open>ev_le ev ev'\<close>: wherever \<open>ev\<close> has a result, \<open>ev'\<close> has the same one.  It is used
  to show that a larger bound never changes a result of \<open>Eval\<close>.
\<close>

definition ev_le :: "evaluator \<Rightarrow> evaluator \<Rightarrow> bool" where
  "ev_le ev ev' = (\<forall>f e k r. ev f e k = Some r \<longrightarrow> ev' f e k = Some r)"

text \<open>
  A key that is the list of 129 zeros, as \<open>(create-list 129 0)\<close> builds it: the cell at
  the address \<open>i\<close> holds 0 and points to the cell before it.  And an array of dimensions
  2 by 3 with no element set, as \<open>NewGeneralArrayStar\<close> makes it.
\<close>

definition key_store :: store where
  "key_store =
     map (\<lambda>i. \<lparr>Car = Integer 0, Cdr = (if i = 0 then Null else ConsRef (i - 1))\<rparr>) [0..<129]"

definition long_key :: Instance where
  "long_key = ConsRef 128"

definition sample_array :: GeneralArrayStar where
  "sample_array = \<lparr>dimension = [2, 3] @ replicate 126 0, array = (\<lambda>dim. None)\<rparr>"

section \<open>Symbols and streams\<close>

text \<open>
  Claim C6.  Symbols are represented by their spelling alone: \<open>NewSymbol s\<close> and
  \<open>NewSymbol t\<close> are the same value exactly when \<open>s\<close> and \<open>t\<close> are the same string.
\<close>

theorem NewSymbol_interned: "(NewSymbol s = NewSymbol t) = (s = t)"
  by (simp add: NewSymbol_def)

text \<open>
  Claim C5, as stated: the text of a stream is \<open>#<stream>\<close>.  It is not: the method
  returns another constant.
\<close>

theorem Stream_String_not_stream:
  "Stream_String \<lparr>Column = 0, Reader = None, Writer = None\<rparr> \<noteq> ''#<stream>''"
  by (simp add: Stream_String_def)

text \<open>
  Claim C5, amended: for every stream, whatever its reader, writer and column, the
  \<open>String\<close> method returns exactly \<open>#<INPUT-STREAM>\<close>.
\<close>

theorem Stream_String_input_stream: "Stream_String s = ''#<INPUT-STREAM>''"
  by (simp add: Stream_String_def)

section \<open>The evaluator: a larger bound keeps every result\<close>

lemma ev_leD: "ev_le ev ev' \<Longrightarrow> ev f e k = Some r \<Longrightarrow> ev' f e k = Some r"
  unfolding ev_le_def by blast

lemma progn_mono:
  assumes le: "ev_le ev ev'"
  shows "progn ev fs e k = Some r \<Longrightarrow> progn ev' fs e k = Some r"
proof (induction fs arbitrary: k)
  case Nil
  then show ?case by simp
next
  case (Cons f fs)
  from Cons.prems obtain r1 where r1: "ev f e k = Some r1"
    by (cases "ev f e k") auto
  with le have r1': "ev' f e k = Some r1" by (rule ev_leD)
  show ?case using Cons.prems Cons.IH r1 r1'
    by (auto split: prod.split_asm result.split_asm if_split_asm)
qed

lemma evlis_mono:
  assumes le: "ev_le ev ev'"
  shows "evlis ev fs e k = Some r \<Longrightarrow> evlis ev' fs e k = Some r"
proof (induction fs arbitrary: k r)
  case Nil
  then show ?case by simp
next
  case (Cons f fs)
  from Cons.prems obtain r1 where r1: "ev f e k = Some r1"
    by (cases "ev f e k") auto
  with le have r1': "ev' f e k = Some r1" by (rule ev_leD)
  show ?case using Cons.prems r1 r1'
    by (auto split: prod.split_asm result.split_asm option.split_asm sum.split_asm
        dest!: Cons.IH)
qed

lemma tagbody_run_mono:
  assumes le: "ev_le ev ev'"
  shows "tagbody_run ev n ident items pc e k = Some r \<Longrightarrow>
    tagbody_run ev' (n + m) ident items pc e k = Some r"
proof (induction n arbitrary: pc k)
  case 0
  then show ?case by simp
next
  case (Suc n)
  show ?case
  proof (cases "length items \<le> pc \<or> symbol_name (items ! pc) \<noteq> None")
    case True
    then show ?thesis using Suc.prems Suc.IH
      by (auto split: if_split_asm)
  next
    case False
    with Suc.prems obtain r1 where r1: "ev (items ! pc) e k = Some r1"
      by (cases "ev (items ! pc) e k") auto
    with le have r1': "ev' (items ! pc) e k = Some r1" by (rule ev_leD)
    show ?thesis using False Suc.prems r1 r1'
      by (auto split: prod.split_asm result.split_asm token.split_asm if_split_asm
          option.split_asm dest!: Suc.IH)
  qed
qed

lemma tagbody_run_Suc:
  assumes "ev_le ev ev'" and "tagbody_run ev n ident items pc e k = Some r"
  shows "tagbody_run ev' (Suc n) ident items pc e k = Some r"
  using tagbody_run_mono[OF assms, of 1] by (simp del: tagbody_run.simps)

lemma reduce_if_mono:
  assumes le: "ev_le ev ev'"
  shows "reduce_if ev args e k = Some r \<Longrightarrow> reduce_if ev' args e k = Some r"
  unfolding reduce_if_def
  by (auto split: list.split_asm if_split_asm option.split_asm prod.split_asm
      result.split_asm dest!: ev_leD[OF le])

lemma reduce_catch_mono:
  assumes le: "ev_le ev ev'"
  shows "reduce_catch ev args e k = Some r \<Longrightarrow> reduce_catch ev' args e k = Some r"
  unfolding reduce_catch_def
  by (auto split: list.split_asm if_split_asm option.split_asm prod.split_asm
      result.split_asm token.split_asm dest!: ev_leD[OF le] progn_mono[OF le])

lemma reduce_throw_mono:
  assumes le: "ev_le ev ev'"
  shows "reduce_throw ev args e k = Some r \<Longrightarrow> reduce_throw ev' args e k = Some r"
  unfolding reduce_throw_def
  by (auto split: list.split_asm if_split_asm option.split_asm prod.split_asm
      result.split_asm dest!: ev_leD[OF le])

lemma reduce_tagbody_mono:
  "ev_le ev ev' \<Longrightarrow> reduce_tagbody ev n args e k = Some r \<Longrightarrow>
   reduce_tagbody ev' (Suc n) args e k = Some r"
  unfolding reduce_tagbody_def by (rule tagbody_run_Suc)

lemma apply_function_mono:
  assumes le: "ev_le ev ev'"
  shows "apply_function ntv ev c args e k = Some r \<Longrightarrow>
    apply_function ntv ev' c args e k = Some r"
  unfolding apply_function_def
  by (auto split: object.split_asm option.split_asm dest!: progn_mono[OF le])

lemma eval_function_mono:
  assumes le: "ev_le ev ev'"
  shows "eval_function global ev head e k = Some r \<Longrightarrow>
    eval_function global ev' head e k = Some r"
  unfolding eval_function_def
  by (auto split: object.split_asm option.split_asm if_split_asm dest!: ev_leD[OF le])

lemma eval_call_mono:
  assumes le: "ev_le ev ev'"
  shows "eval_call ntv global ev head args e k = Some r \<Longrightarrow>
    eval_call ntv global ev' head args e k = Some r"
  unfolding eval_call_def
  by (auto split: option.split_asm prod.split_asm result.split_asm sum.split_asm
      dest!: eval_function_mono[OF le] evlis_mono[OF le] apply_function_mono[OF le])

lemma eval_cons_mono:
  assumes le: "ev_le ev ev'"
  shows "eval_cons ntv global n ev head args e k = Some r \<Longrightarrow>
    eval_cons ntv global (Suc n) ev' head args e k = Some r"
  unfolding eval_cons_def
  by (auto split: if_split_asm option.split_asm prod.split_asm result.split_asm
      dest!: reduce_if_mono[OF le] progn_mono[OF le] reduce_tagbody_mono[OF le]
        reduce_catch_mono[OF le] reduce_throw_mono[OF le] apply_function_mono[OF le]
        eval_call_mono[OF le] ev_leD[OF le])

lemma eval_form_mono:
  assumes le: "ev_le ev ev'"
  shows "eval_form ntv global n ev form e k = Some r \<Longrightarrow>
   eval_form ntv global (Suc n) ev' form e k = Some r"
  unfolding eval_form_def
  by (auto split: object.split_asm option.split_asm dest!: eval_cons_mono[OF le])

lemma Eval_Suc: "ev_le (Eval ntv global n) (Eval ntv global (Suc n))"
proof (induction n)
  case 0
  then show ?case by (simp add: ev_le_def)
next
  case (Suc n)
  show ?case unfolding ev_le_def
  proof (intro allI impI)
    fix f e k r
    assume "Eval ntv global (Suc n) f e k = Some r"
    then have "eval_form ntv global n (Eval ntv global n) f e k = Some r" by simp
    from eval_form_mono[OF Suc this]
    show "Eval ntv global (Suc (Suc n)) f e k = Some r" by simp
  qed
qed

lemma Eval_add:
  "Eval ntv global n f e k = Some r \<Longrightarrow> Eval ntv global (n + m) f e k = Some r"
proof (induction m)
  case 0
  then show ?case by simp
next
  case (Suc m)
  then have "Eval ntv global (n + m) f e k = Some r" by simp
  from ev_leD[OF Eval_Suc this] show ?case by simp
qed

section \<open>The evaluator on the forms of the tests\<close>

lemmas eval_defs = eval_form_def eval_cons_def eval_call_def eval_function_def
  apply_function_def reduce_if_def reduce_lambda_def reduce_tagbody_def reduce_go_def
  reduce_catch_def reduce_throw_def install_tagbody_def install_catch_def bind_variables_def
  bind_parameters_def lookup_def quote_def is_rest_def

lemma list_of_of_list: "list_of (of_list xs) = Some xs"
  by (induction xs) auto

lemma nested_tagbody_fuel:
  "Eval ntv global 6 form_nested_tagbody e k = Some (Val ObjNull, k + 2)"
  by (simp add: eval_nat_numeral form_nested_tagbody_def eval_defs)

lemma same_label_fuel:
  "Eval ntv global 6 form_same_label e k = Some (Val (ObjInteger 1), k + 2)"
  by (simp add: eval_nat_numeral form_same_label_def eval_defs)


lemma go_owned:
  "l \<in> set ls \<Longrightarrow>
   reduce_go global [ObjSymbol l] (install_tagbody ident ls e) k = Some (Tok (Goto ident l), k)"
  by (induction ls) (auto simp: reduce_go_def install_tagbody_def lookup_def)

lemma go_not_owned:
  "l \<notin> set ls \<Longrightarrow>
   reduce_go global [ObjSymbol l] (install_tagbody ident ls e) k =
   reduce_go global [ObjSymbol l] e k"
  by (induction ls) (auto simp: reduce_go_def install_tagbody_def lookup_def)

lemma tagbody_foreign_goto:
  "pc < length items \<Longrightarrow> symbol_name (items ! pc) = None \<Longrightarrow>
   ev (items ! pc) e k = Some (Tok (Goto a l), k1) \<Longrightarrow> a \<noteq> ident \<Longrightarrow>
   tagbody_run ev (Suc n) ident items pc e k = Some (Tok (Goto a l), k1)"
  by simp

lemma tagbody_own_goto:
  "pc < length items \<Longrightarrow> symbol_name (items ! pc) = None \<Longrightarrow>
   ev (items ! pc) e k = Some (Tok (Goto ident l), k1) \<Longrightarrow> label_index l items = Some j \<Longrightarrow>
   tagbody_run ev (Suc n) ident items pc e k = tagbody_run ev n ident items j e k1"
  by simp

lemma Eval_tagbody:
  "list_of body = Some items \<Longrightarrow>
   Eval ntv global (Suc n) (ObjCons (ObjSymbol ''TAGBODY'') body) e k =
   tagbody_run (Eval ntv global n) n k items 0 (install_tagbody k (labels items) e) (Suc k)"
  by (simp add: eval_form_def eval_cons_def reduce_tagbody_def)

lemma foreign_go_fuel:
  assumes "lookup MacroNS e global ''G'' = None"
    and "lookup FunctionNS e global ''G'' = Some (go_closure cenv)"
    and "lookup TagbodyTagNS cenv global ''L'' = Some a"
    and "a \<noteq> k"
  shows "Eval ntv global 4 form_foreign_go e k = Some (Tok (Goto a ''L''), Suc k)"
  using assms
  by (simp add: eval_nat_numeral form_foreign_go_def go_closure_def eval_form_def eval_cons_def
      eval_call_def eval_function_def apply_function_def reduce_catch_def reduce_tagbody_def
      reduce_go_def bind_parameters_def bind_variables_def install_catch_def
      install_tagbody_def quote_def lookup_def)

lemma tagbody_call_fuel:
  assumes "lookup MacroNS e global ''G'' = None"
    and "lookup FunctionNS e global ''G'' = Some (go_closure cenv)"
    and "lookup TagbodyTagNS cenv global ''L'' = Some a"
    and "a \<noteq> k"
  shows "Eval ntv global 3 (form_tagbody_call items) e k = Some (Tok (Goto a ''L''), Suc k)"
  using assms list_of_of_list[of items]
  by (simp add: eval_nat_numeral form_tagbody_call_def go_closure_def eval_form_def eval_cons_def
      eval_call_def eval_function_def apply_function_def reduce_tagbody_def
      reduce_go_def bind_parameters_def bind_variables_def
      install_tagbody_def lookup_def)

lemma label_index_labels: "label_index l items = Some j \<Longrightarrow> l \<in> set (labels items)"
  by (induction items arbitrary: j) (auto split: if_splits option.splits)

lemma label_index_None: "l \<notin> set (labels items) \<Longrightarrow> label_index l items = None"
  by (induction items) (auto split: option.splits)

lemma Eval_go:
  "Eval ntv global (Suc n) (of_list [ObjSymbol ''GO'', ObjSymbol l]) e k =
   reduce_go global [ObjSymbol l] e k"
  by (simp add: eval_form_def eval_cons_def)

lemma tagbody_go_own:
  assumes "label_index l items = Some j"
  shows "Eval ntv global (Suc (Suc n)) (form_tagbody_go l items) e k =
    tagbody_run (Eval ntv global (Suc n)) n k (of_list [ObjSymbol ''GO'', ObjSymbol l] # items)
      (Suc j) (install_tagbody k (labels items) e) (Suc k)"
proof -
  let ?go = "of_list [ObjSymbol ''GO'', ObjSymbol l]"
  let ?items = "?go # items"
  let ?e1 = "install_tagbody k (labels ?items) e"
  have l: "l \<in> set (labels ?items)" using label_index_labels[OF assms] by simp
  have g: "Eval ntv global (Suc n) (?items ! 0) ?e1 (Suc k) = Some (Tok (Goto k l), Suc k)"
    using go_owned[OF l] by (simp only: nth_Cons_0 Eval_go)
  have i: "label_index l ?items = Some (Suc j)" using assms by simp
  have "tagbody_run (Eval ntv global (Suc n)) (Suc n) k ?items 0 ?e1 (Suc k) =
      tagbody_run (Eval ntv global (Suc n)) n k ?items (Suc j) ?e1 (Suc k)"
    using g i by (simp del: Eval.simps)
  moreover have "Eval ntv global (Suc (Suc n)) (form_tagbody_go l items) e k =
      tagbody_run (Eval ntv global (Suc n)) (Suc n) k ?items 0 ?e1 (Suc k)"
    unfolding form_tagbody_go_def of_list.simps
    by (rule Eval_tagbody) (simp add: list_of_of_list)
  moreover have "labels ?items = labels items" by simp
  ultimately show ?thesis by (simp only:)
qed

lemma tagbody_go_outer:
  assumes "l \<notin> set (labels items)" and "lookup TagbodyTagNS e global l = Some a"
  shows "Eval ntv global (Suc (Suc n)) (form_tagbody_go l items) e k =
    Some (Tok (Goto a l), Suc k)"
proof -
  let ?go = "of_list [ObjSymbol ''GO'', ObjSymbol l]"
  let ?items = "?go # items"
  let ?e1 = "install_tagbody k (labels ?items) e"
  have l: "l \<notin> set (labels ?items)" using assms(1) by simp
  have "reduce_go global [ObjSymbol l] e (Suc k) = Some (Tok (Goto a l), Suc k)"
    using assms(2) by (simp add: reduce_go_def)
  then have g: "Eval ntv global (Suc n) (?items ! 0) ?e1 (Suc k) = Some (Tok (Goto a l), Suc k)"
    using go_not_owned[OF l] by (simp only: nth_Cons_0 Eval_go)
  have i: "label_index l ?items = None" using label_index_None[OF l] .
  have "tagbody_run (Eval ntv global (Suc n)) (Suc n) k ?items 0 ?e1 (Suc k) =
      Some (Tok (Goto a l), Suc k)"
    using g i by (simp del: Eval.simps)
  moreover have "Eval ntv global (Suc (Suc n)) (form_tagbody_go l items) e k =
      tagbody_run (Eval ntv global (Suc n)) (Suc n) k ?items 0 ?e1 (Suc k)"
    unfolding form_tagbody_go_def of_list.simps
    by (rule Eval_tagbody) (simp add: list_of_of_list)
  ultimately show ?thesis by (simp only:)
qed

text \<open>
  Claim C1.  Nested tagbodies do not collide; a label is the pair of a frame and a symbol.
  \<^item> Inside a tagbody frame, a \<open>go\<close> to a label that the frame owns emits the \<open>Goto\<close>
    of this frame, whatever the enclosing frames own; a \<open>go\<close> to a label that the frame
    does not own behaves as it does outside the frame.
  \<^item> A tagbody form runs its items from the first, in a new frame that owns its labels.
    When a statement of a tagbody yields the \<open>Goto\<close> of another frame, the tagbody
    passes it on, also when it owns a label of the same name; when it yields the
    \<open>Goto\<close> of this frame, the tagbody resumes at the index of that label.
  \<^item> So \<open>(tagbody (go l) item...)\<close> resumes at its own \<open>L\<close> when it owns one,
    whatever the frames around it own, and yields the \<open>Goto\<close> of the innermost
    enclosing frame that owns \<open>L\<close> when it owns none.
  \<^item> And \<open>(tagbody (g) item...)\<close>, where \<open>G\<close> is a closure whose \<open>(go l)\<close> belongs to
    another frame, passes that \<open>Goto\<close> on whatever its own items are, and
    \<open>(catch 'foo (tagbody (g) l (throw 'foo 1)))\<close> does not reach its own \<open>L\<close>.
  \<^item> For every environment, every table of native functions and every bound of at least
    6, the form
    \<open>(catch 'foo (tagbody (tagbody (go bar) (throw 'foo 1) bar (go foobar)) foobar))\<close>
    evaluates to \<open>nil\<close> with no token: \<open>(go bar)\<close> resumes in the inner tagbody after
    the throw, and \<open>(go foobar)\<close>, whose label the inner tagbody does not own, leaves it
    for the outer one.  And when both tagbodies own a label of the same name, as in
    \<open>(catch 'foo (tagbody (tagbody (go l) l (throw 'foo 1)) l (throw 'foo 2)))\<close>, the
    \<open>go\<close> targets the innermost one: the value is 1, not 2.
\<close>

theorem nested_tagbody_go_innermost:
  "(l \<in> set ls \<longrightarrow>
      reduce_go global [ObjSymbol l] (install_tagbody ident ls e) k =
        Some (Tok (Goto ident l), k)) \<and>
   (l \<notin> set ls \<longrightarrow>
      reduce_go global [ObjSymbol l] (install_tagbody ident ls e) k =
        reduce_go global [ObjSymbol l] e k) \<and>
   (list_of body = Some items \<longrightarrow>
      Eval ntv global (Suc n) (ObjCons (ObjSymbol ''TAGBODY'') body) e k =
        tagbody_run (Eval ntv global n) n k items 0 (install_tagbody k (labels items) e) (Suc k)) \<and>
   (pc < length items \<longrightarrow> symbol_name (items ! pc) = None \<longrightarrow>
    ev (items ! pc) e k = Some (Tok (Goto a l), k1) \<longrightarrow> a \<noteq> ident \<longrightarrow>
      tagbody_run ev (Suc n) ident items pc e k = Some (Tok (Goto a l), k1)) \<and>
   (pc < length items \<longrightarrow> symbol_name (items ! pc) = None \<longrightarrow>
    ev (items ! pc) e k = Some (Tok (Goto ident l), k1) \<longrightarrow> label_index l items = Some j \<longrightarrow>
      tagbody_run ev (Suc n) ident items pc e k = tagbody_run ev n ident items j e k1) \<and>
   (label_index l items = Some j \<longrightarrow>
      Eval ntv global (Suc (Suc n)) (form_tagbody_go l items) e k =
        tagbody_run (Eval ntv global (Suc n)) n k
          (of_list [ObjSymbol ''GO'', ObjSymbol l] # items) (Suc j)
          (install_tagbody k (labels items) e) (Suc k)) \<and>
   (l \<notin> set (labels items) \<longrightarrow> lookup TagbodyTagNS e global l = Some a \<longrightarrow>
      Eval ntv global (Suc (Suc n)) (form_tagbody_go l items) e k =
        Some (Tok (Goto a l), Suc k)) \<and>
   (lookup MacroNS e global ''G'' = None \<longrightarrow>
    lookup FunctionNS e global ''G'' = Some (go_closure cenv) \<longrightarrow>
    lookup TagbodyTagNS cenv global ''L'' = Some a \<longrightarrow> a \<noteq> k \<longrightarrow>
      Eval ntv global (3 + m) (form_tagbody_call items) e k = Some (Tok (Goto a ''L''), Suc k) \<and>
      Eval ntv global (4 + m) form_foreign_go e k = Some (Tok (Goto a ''L''), Suc k)) \<and>
   Eval ntv global (6 + m) form_nested_tagbody e k = Some (Val ObjNull, k + 2) \<and>
   Eval ntv global (6 + m) form_same_label e k = Some (Val (ObjInteger 1), k + 2)"
proof (intro conjI impI)
  show "Eval ntv global (6 + m) form_nested_tagbody e k = Some (Val ObjNull, k + 2)"
    by (rule Eval_add[OF nested_tagbody_fuel])
  show "Eval ntv global (6 + m) form_same_label e k = Some (Val (ObjInteger 1), k + 2)"
    by (rule Eval_add[OF same_label_fuel])
next
  assume "lookup MacroNS e global ''G'' = None"
    "lookup FunctionNS e global ''G'' = Some (go_closure cenv)"
    "lookup TagbodyTagNS cenv global ''L'' = Some a" "a \<noteq> k"
  then show "Eval ntv global (3 + m) (form_tagbody_call items) e k =
      Some (Tok (Goto a ''L''), Suc k)"
    by (intro Eval_add tagbody_call_fuel)
next
  assume "lookup MacroNS e global ''G'' = None"
    "lookup FunctionNS e global ''G'' = Some (go_closure cenv)"
    "lookup TagbodyTagNS cenv global ''L'' = Some a" "a \<noteq> k"
  then show "Eval ntv global (4 + m) form_foreign_go e k = Some (Tok (Goto a ''L''), Suc k)"
    by (intro Eval_add foreign_go_fuel)
next
  assume "list_of body = Some items"
  then show "Eval ntv global (Suc n) (ObjCons (ObjSymbol ''TAGBODY'') body) e k =
      tagbody_run (Eval ntv global n) n k items 0 (install_tagbody k (labels items) e) (Suc k)"
    by (rule Eval_tagbody)
next
  assume "label_index l items = Some j"
  then show "Eval ntv global (Suc (Suc n)) (form_tagbody_go l items) e k =
      tagbody_run (Eval ntv global (Suc n)) n k
        (of_list [ObjSymbol ''GO'', ObjSymbol l] # items) (Suc j)
        (install_tagbody k (labels items) e) (Suc k)"
    by (rule tagbody_go_own)
next
  assume "l \<notin> set (labels items)" "lookup TagbodyTagNS e global l = Some a"
  then show "Eval ntv global (Suc (Suc n)) (form_tagbody_go l items) e k =
      Some (Tok (Goto a l), Suc k)"
    by (rule tagbody_go_outer)
qed (simp_all add: go_owned go_not_owned)

text \<open>
  The general parts of C1 at concrete frames: with \<open>L\<close> owned by two frames the inner
  one (number 1) is the target, and \<open>FOOBAR\<close>, owned by the outer frame only, leads to the
  outer one (number 0); in \<open>go_env\<close> the call \<open>(g)\<close> inside the frame number 1, which
  owns \<open>L\<close> too, gives the \<open>Goto\<close> of the frame number 0 and the tagbody passes it on;
  and a \<open>(go l)\<close> written in the frame number 1 resumes there at \<open>L\<close>.
\<close>

theorem nested_tagbody_go_innermost_witness:
  "reduce_go test_global [ObjSymbol ''L'']
     (install_tagbody 1 [''L''] (install_tagbody 0 [''L''] test_local)) 0 =
     Some (Tok (Goto 1 ''L''), 0) \<and>
   reduce_go test_global [ObjSymbol ''FOOBAR'']
     (install_tagbody 1 [''BAR''] (install_tagbody 0 [''FOOBAR''] test_local)) 0 =
     Some (Tok (Goto 0 ''FOOBAR''), 0) \<and>
   Eval test_natives test_global 3 (form_tagbody_call [ObjSymbol ''L'', ObjInteger 5]) go_env 1 =
     Some (Tok (Goto 0 ''L''), 2) \<and>
   Eval test_natives test_global 4 form_foreign_go go_env 1 = Some (Tok (Goto 0 ''L''), 2) \<and>
   Eval test_natives test_global 5
     (form_tagbody_go ''L'' [ObjInteger 4, ObjSymbol ''L'', ObjInteger 5]) go_env 1 =
     Some (Val ObjNull, 2) \<and>
   Eval test_natives test_global 5 (form_tagbody_go ''L'' [ObjInteger 4]) go_env 1 =
     Some (Tok (Goto 0 ''L''), 2) \<and>
   tagbody_run (Eval test_natives test_global 2) 1 1
     [of_list [ObjSymbol ''G''], ObjSymbol ''L'', ObjInteger 5] 0
     (install_tagbody 1 [''L''] go_env) 2 = Some (Tok (Goto 0 ''L''), 2) \<and>
   tagbody_run (Eval test_natives test_global 2) 4 1
     [of_list [ObjSymbol ''GO'', ObjSymbol ''L''], ObjInteger 4, ObjSymbol ''L'', ObjInteger 5] 0
     (install_tagbody 1 [''L''] go_env) 2 = Some (Val ObjNull, 2)"
proof -
  let ?ev = "Eval test_natives test_global 2"
  let ?e1 = "install_tagbody 1 [''L''] go_env"
  let ?call = "[of_list [ObjSymbol ''G''], ObjSymbol ''L'', ObjInteger 5]"
  let ?go = "[of_list [ObjSymbol ''GO'', ObjSymbol ''L''], ObjInteger 4, ObjSymbol ''L'',
    ObjInteger 5]"
  have 1: "''L'' \<in> set [''L'']" by simp
  have 2: "''FOOBAR'' \<notin> set [''BAR'']" by simp
  have 3: "''FOOBAR'' \<in> set [''FOOBAR'']" by simp
  have g: "lookup MacroNS go_env test_global ''G'' = None"
    "lookup FunctionNS go_env test_global ''G'' =
      Some (go_closure (Env [] [] [] [(''L'', 0)] []))"
    "lookup TagbodyTagNS (Env [] [] [] [(''L'', 0)] []) test_global ''L'' = Some 0"
    "(0::nat) \<noteq> 1"
    by (simp_all add: lookup_def go_env_def test_global_def)
  have f: "0 < length ?call" "symbol_name (?call ! 0) = None"
    "?ev (?call ! 0) ?e1 2 = Some (Tok (Goto 0 ''L''), 2)" "(0::nat) \<noteq> 1"
    by (simp_all add: eval_nat_numeral eval_defs go_env_def go_closure_def test_global_def)
  have o: "0 < length ?go" "symbol_name (?go ! 0) = None"
    "?ev (?go ! 0) ?e1 2 = Some (Tok (Goto 1 ''L''), 2)" "label_index ''L'' ?go = Some 2"
    by (simp_all add: eval_nat_numeral eval_defs go_env_def test_global_def)
  note c = nested_tagbody_go_innermost
  have a: "reduce_go test_global [ObjSymbol ''L'']
      (install_tagbody 1 [''L''] (install_tagbody 0 [''L''] test_local)) 0 =
      Some (Tok (Goto 1 ''L''), 0)"
    using c[of "''L''" "[''L'']" test_global 1 "install_tagbody 0 [''L''] test_local" 0] 1
    by blast
  have b: "reduce_go test_global [ObjSymbol ''FOOBAR'']
      (install_tagbody 1 [''BAR''] (install_tagbody 0 [''FOOBAR''] test_local)) 0 =
      Some (Tok (Goto 0 ''FOOBAR''), 0)"
    using c[of "''FOOBAR''" "[''BAR'']" test_global 1 "install_tagbody 0 [''FOOBAR''] test_local" 0]
      c[of "''FOOBAR''" "[''FOOBAR'']" test_global 0 test_local 0] 2 3
    by simp
  have d: "Eval test_natives test_global 3 (form_tagbody_call [ObjSymbol ''L'', ObjInteger 5])
      go_env 1 = Some (Tok (Goto 0 ''L''), 2) \<and>
    Eval test_natives test_global 4 form_foreign_go go_env 1 = Some (Tok (Goto 0 ''L''), 2)"
    using c[where e = go_env and global = test_global and cenv = "Env [] [] [] [(''L'', 0)] []"
        and a = 0 and k = 1 and m = 0 and ntv = test_natives
        and items = "[ObjSymbol ''L'', ObjInteger 5]"] g
    by simp
  have e: "tagbody_run ?ev 1 1 ?call 0 ?e1 2 = Some (Tok (Goto 0 ''L''), 2)"
    using c[where pc = 0 and items = ?call and ev = ?ev and e = ?e1 and k = 2 and a = 0
        and l = "''L''" and ident = 1 and ?k1.0 = 2 and n = 0] f
    by (simp del: tagbody_run.simps Eval.simps)
  have "tagbody_run ?ev 4 1 ?go 0 ?e1 2 = tagbody_run ?ev 3 1 ?go 2 ?e1 2"
    using c[where pc = 0 and items = ?go and ev = ?ev and e = ?e1 and k = 2
        and l = "''L''" and ident = 1 and ?k1.0 = 2 and n = 3 and j = 2] o
    by (simp add: eval_nat_numeral del: tagbody_run.simps Eval.simps)
  moreover have "tagbody_run ?ev 3 1 ?go 2 ?e1 2 = Some (Val ObjNull, 2)"
    by (simp add: eval_nat_numeral eval_defs)
  ultimately have h: "tagbody_run ?ev 4 1 ?go 0 ?e1 2 = Some (Val ObjNull, 2)" by simp
  have li: "label_index ''L'' [ObjInteger 4, ObjSymbol ''L'', ObjInteger 5] = Some 1" by simp
  have "Eval test_natives test_global 5
      (form_tagbody_go ''L'' [ObjInteger 4, ObjSymbol ''L'', ObjInteger 5]) go_env 1 =
      tagbody_run (Eval test_natives test_global 4) 3 1
        (of_list [ObjSymbol ''GO'', ObjSymbol ''L''] #
         [ObjInteger 4, ObjSymbol ''L'', ObjInteger 5]) 2
        (install_tagbody 1 (labels [ObjInteger 4, ObjSymbol ''L'', ObjInteger 5]) go_env) 2"
    using c[where l = "''L''" and items = "[ObjInteger 4, ObjSymbol ''L'', ObjInteger 5]"
        and j = 1 and ntv = test_natives and global = test_global and n = 3 and e = go_env
        and k = 1] li
    by (simp add: eval_nat_numeral del: tagbody_run.simps Eval.simps)
  moreover have "tagbody_run (Eval test_natives test_global 4) 3 1
        (of_list [ObjSymbol ''GO'', ObjSymbol ''L''] #
         [ObjInteger 4, ObjSymbol ''L'', ObjInteger 5]) 2
        (install_tagbody 1 (labels [ObjInteger 4, ObjSymbol ''L'', ObjInteger 5]) go_env) 2 =
      Some (Val ObjNull, 2)"
    by (simp add: eval_nat_numeral eval_form_def)
  ultimately have i: "Eval test_natives test_global 5
      (form_tagbody_go ''L'' [ObjInteger 4, ObjSymbol ''L'', ObjInteger 5]) go_env 1 =
      Some (Val ObjNull, 2)"
    by (simp only:)
  have no: "''L'' \<notin> set (labels [ObjInteger 4])"
    "lookup TagbodyTagNS go_env test_global ''L'' = Some 0"
    by (simp_all add: lookup_def go_env_def)
  have u: "Eval test_natives test_global 5 (form_tagbody_go ''L'' [ObjInteger 4]) go_env 1 =
      Some (Tok (Goto 0 ''L''), 2)"
    using c[where l = "''L''" and items = "[ObjInteger 4]" and a = 0 and ntv = test_natives
        and global = test_global and n = 3 and e = go_env and k = 1] no
    by (simp add: eval_nat_numeral del: tagbody_run.simps Eval.simps)
  show ?thesis using a b d e h i u by blast
qed




lemma Eval_literal: "Eval ntv global (Suc n) (ObjInteger i) e k = Some (Val (ObjInteger i), k)"
  by (simp add: eval_form_def)

lemma evlis_literals:
  "evlis (Eval ntv global (Suc n)) (map ObjInteger xs) e k = Some (Inr (map ObjInteger xs), k)"
  by (induction xs) (simp_all add: eval_form_def)

lemma progn_literals:
  "progn (Eval ntv global (Suc n)) (map ObjInteger bs @ [f]) e k =
   progn (Eval ntv global (Suc n)) [f] e k"
  by (induction bs) (simp_all add: eval_form_def)

lemma lambda_body_fuel:
  "Eval ntv global 3 (form_lambda_body (map ObjInteger bs) (map ObjInteger xs)) e k =
     Some (Val (of_list (map ObjInteger xs)), k)"
proof -
  let ?ev = "Eval ntv global (Suc (Suc 0))"
  let ?body = "map ObjInteger bs @ [ObjSymbol ''XS'']"
  let ?lam = "of_list (ObjSymbol ''LAMBDA'' # of_list [ObjSymbol '':REST'', ObjSymbol ''XS''] #
    ?body)"
  let ?args = "map ObjInteger xs"
  have clo: "?ev ?lam e k = Some (Val (ObjClosure [] (Some ''XS'') ?body e), k)"
    using list_of_of_list[of ?body] by (simp add: eval_defs)
  have args: "evlis ?ev ?args e k = Some (Inr ?args, k)"
    by (rule evlis_literals)
  have "progn ?ev [ObjSymbol ''XS'']
      (bind_variables [(''XS'', of_list ?args)] e) k = Some (Val (of_list ?args), k)"
    by (simp add: eval_defs)
  then have body: "progn ?ev ?body
      (bind_variables [(''XS'', of_list ?args)] e) k = Some (Val (of_list ?args), k)"
    by (simp only: progn_literals)
  have "eval_form ntv global (Suc (Suc 0)) ?ev (ObjCons ?lam (of_list ?args)) e k =
      Some (Val (of_list ?args), k)"
    using clo args body
    by (simp add: eval_form_def eval_cons_def eval_call_def eval_function_def
        apply_function_def bind_parameters_def list_of_of_list del: Eval.simps)
  then have "Eval ntv global (Suc (Suc (Suc 0))) (ObjCons ?lam (of_list ?args)) e k =
      Some (Val (of_list ?args), k)"
    by (simp only: Eval.simps)
  then show ?thesis
    by (simp add: eval_nat_numeral form_lambda_body_def del: Eval.simps)
qed

lemma form_lambda_rest_body: "form_lambda_rest args = form_lambda_body [] args"
  by (simp add: form_lambda_rest_def form_lambda_body_def)

lemma lambda_rest_fuel:
  "Eval ntv global 3 (form_lambda_rest (map ObjInteger xs)) e k =
     Some (Val (of_list (map ObjInteger xs)), k)"
  using lambda_body_fuel[of ntv global "[]" xs e k] by (simp add: form_lambda_rest_body)

lemma lambda_empty_fuel:
  "Eval ntv global 3 (form_lambda_empty (ObjInteger a)) e k = Some (Val ObjNull, k)"
  by (simp add: eval_nat_numeral form_lambda_empty_def eval_defs)

lemma parse_params_rest:
  "\<forall>p\<in>set ps. \<not> is_rest p \<Longrightarrow>
   parse_params (map ObjSymbol ps @ [ObjSymbol '':REST'', ObjSymbol ''XS'']) =
     Some (ps, Some ''XS'')"
  by (induction ps) (simp_all add: is_rest_def)

lemma parse_params_required:
  "\<forall>p\<in>set ps. \<not> is_rest p \<Longrightarrow> parse_params (map ObjSymbol ps) = Some (ps, None)"
  by (induction ps) simp_all

lemma progn_literals_more:
  "fs \<noteq> [] \<Longrightarrow>
   progn (Eval ntv global (Suc n)) (map ObjInteger bs @ fs) e k =
   progn (Eval ntv global (Suc n)) fs e k"
  by (induction bs) (simp_all add: eval_form_def)

lemma apply_rest:
  "length ps \<le> length args \<Longrightarrow>
   apply_function ntv ev (ObjClosure ps (Some r) body cenv) args e k =
   progn ev body
     (bind_variables (zip ps (take (length ps) args) @ [(r, of_list (drop (length ps) args))])
        cenv) k"
  by (simp add: apply_function_def bind_parameters_def)

lemma apply_empty_body:
  "bind_parameters ps r args = Some bs \<Longrightarrow>
   apply_function ntv ev (ObjClosure ps r [] cenv) args e k = Some (Val ObjNull, k)"
  by (simp add: apply_function_def)

lemma progn_last: "ev f e k = Some (Val v, k1) \<Longrightarrow> progn ev [f] e k = Some (Val v, k1)"
  by simp

lemma progn_next:
  "ev f e k = Some (Val v, k1) \<Longrightarrow> fs \<noteq> [] \<Longrightarrow> progn ev (f # fs) e k = progn ev fs e k1"
  by simp

lemma progn_token: "ev f e k = Some (Tok t, k1) \<Longrightarrow> progn ev (f # fs) e k = Some (Tok t, k1)"
  by simp

lemma lambda_params_fuel:
  assumes ps: "\<forall>p\<in>set ps. \<not> is_rest p" and xs: "''XS'' \<notin> set ps"
    and len: "length ps \<le> length xs"
  shows "Eval ntv global 3 (form_lambda_params ps (map ObjInteger xs)) e k =
     Some (Val (of_list (map ObjInteger (drop (length ps) xs))), k)"
proof -
  let ?ev = "Eval ntv global (Suc (Suc 0))"
  let ?pl = "map ObjSymbol ps @ [ObjSymbol '':REST'', ObjSymbol ''XS'']"
  let ?lam = "of_list [ObjSymbol ''LAMBDA'', of_list ?pl, ObjSymbol ''XS'']"
  let ?args = "map ObjInteger xs"
  let ?rest = "of_list (drop (length ps) ?args)"
  let ?bs = "zip ps (take (length ps) ?args) @ [(''XS'', ?rest)]"
  have clo: "?ev ?lam e k = Some (Val (ObjClosure ps (Some ''XS'') [ObjSymbol ''XS''] e), k)"
    using list_of_of_list[of ?pl] parse_params_rest[OF ps]
    by (simp add: eval_form_def eval_cons_def reduce_lambda_def)
  have args: "evlis ?ev ?args e k = Some (Inr ?args, k)"
    by (rule evlis_literals)
  have "map_of (zip ps (take (length ps) ?args)) ''XS'' = None"
    using xs len by (simp add: map_of_zip_is_None)
  then have look: "lookup VariableNS (bind_variables ?bs e) global ''XS'' = Some ?rest"
    by (simp add: lookup_def bind_variables_def map_add_def)
  have body: "progn ?ev [ObjSymbol ''XS''] (bind_variables ?bs e) k = Some (Val ?rest, k)"
    using look by (simp add: eval_form_def)
  have "apply_function ntv ?ev (ObjClosure ps (Some ''XS'') [ObjSymbol ''XS''] e) ?args e k =
      Some (Val ?rest, k)"
    using len body by (simp add: apply_rest del: progn.simps Eval.simps)
  then have "eval_form ntv global (Suc (Suc 0)) ?ev (ObjCons ?lam (of_list ?args)) e k =
      Some (Val ?rest, k)"
    using clo args
    by (simp add: eval_form_def eval_cons_def eval_call_def eval_function_def
        list_of_of_list del: Eval.simps)
  then have "Eval ntv global (Suc (Suc (Suc 0))) (ObjCons ?lam (of_list ?args)) e k =
      Some (Val ?rest, k)"
    by (simp only: Eval.simps)
  then show ?thesis
    by (simp add: eval_nat_numeral form_lambda_params_def drop_map del: Eval.simps)
qed

lemma lambda_no_body_fuel:
  assumes ps: "\<forall>p\<in>set ps. \<not> is_rest p" and len: "length xs = length ps"
  shows "Eval ntv global 3 (form_lambda_no_body ps (map ObjInteger xs)) e k =
     Some (Val ObjNull, k)"
proof -
  let ?ev = "Eval ntv global (Suc (Suc 0))"
  let ?lam = "of_list [ObjSymbol ''LAMBDA'', of_list (map ObjSymbol ps)]"
  let ?args = "map ObjInteger xs"
  have clo: "?ev ?lam e k = Some (Val (ObjClosure ps None [] e), k)"
    using list_of_of_list[of "map ObjSymbol ps"] parse_params_required[OF ps]
    by (simp add: eval_form_def eval_cons_def reduce_lambda_def)
  have args: "evlis ?ev ?args e k = Some (Inr ?args, k)"
    by (rule evlis_literals)
  have "eval_form ntv global (Suc (Suc 0)) ?ev (ObjCons ?lam (of_list ?args)) e k =
      Some (Val ObjNull, k)"
    using clo args len
    by (simp add: eval_form_def eval_cons_def eval_call_def eval_function_def
        apply_function_def bind_parameters_def list_of_of_list del: Eval.simps)
  then have "Eval ntv global (Suc (Suc (Suc 0))) (ObjCons ?lam (of_list ?args)) e k =
      Some (Val ObjNull, k)"
    by (simp only: Eval.simps)
  then show ?thesis
    by (simp add: eval_nat_numeral form_lambda_no_body_def del: Eval.simps)
qed

lemma lambda_throw_fuel:
  "Eval ntv global 3
     (form_lambda_throw (map ObjInteger bs) (ObjInteger a) after (map ObjInteger xs)) e k =
     Some (Tok (Throw (ObjSymbol ''FOO'') (ObjInteger a)), k)"
proof -
  let ?ev = "Eval ntv global (Suc (Suc 0))"
  let ?throw = "of_list [ObjSymbol ''THROW'', quote (ObjSymbol ''FOO''), ObjInteger a]"
  let ?body = "map ObjInteger bs @ [?throw] @ after"
  let ?lam = "of_list (ObjSymbol ''LAMBDA'' # of_list [ObjSymbol '':REST'', ObjSymbol ''XS''] #
    ?body)"
  let ?args = "map ObjInteger xs"
  let ?e1 = "bind_variables [(''XS'', of_list ?args)] e"
  have clo: "?ev ?lam e k = Some (Val (ObjClosure [] (Some ''XS'') ?body e), k)"
    using list_of_of_list[of ?body] by (simp add: eval_defs)
  have args: "evlis ?ev ?args e k = Some (Inr ?args, k)"
    by (rule evlis_literals)
  have "?ev ?throw ?e1 k = Some (Tok (Throw (ObjSymbol ''FOO'') (ObjInteger a)), k)"
    by (simp add: eval_defs)
  then have "progn ?ev ([?throw] @ after) ?e1 k =
      Some (Tok (Throw (ObjSymbol ''FOO'') (ObjInteger a)), k)"
    by (simp del: Eval.simps)
  moreover have "progn ?ev ?body ?e1 k = progn ?ev ([?throw] @ after) ?e1 k"
    by (rule progn_literals_more) simp
  ultimately have body: "progn ?ev ?body ?e1 k =
      Some (Tok (Throw (ObjSymbol ''FOO'') (ObjInteger a)), k)"
    by (simp only:)
  have "eval_form ntv global (Suc (Suc 0)) ?ev (ObjCons ?lam (of_list ?args)) e k =
      Some (Tok (Throw (ObjSymbol ''FOO'') (ObjInteger a)), k)"
    using clo args body
    by (simp add: eval_form_def eval_cons_def eval_call_def eval_function_def
        apply_function_def bind_parameters_def list_of_of_list del: Eval.simps progn.simps)
  then have "Eval ntv global (Suc (Suc (Suc 0))) (ObjCons ?lam (of_list ?args)) e k =
      Some (Tok (Throw (ObjSymbol ''FOO'') (ObjInteger a)), k)"
    by (simp only: Eval.simps)
  then show ?thesis
    by (simp add: eval_nat_numeral form_lambda_throw_def del: Eval.simps)
qed

text \<open>
  Claim C3.  Applying a closure with a rest parameter binds the required parameters by
  position and the rest parameter to the remaining arguments, those after the required
  ones, as a proper list, and evaluates the body in that frame.  The body forms are
  evaluated in order: each form is evaluated in the state its predecessor left, a token
  ends the sequence and is the result, the value of the last form is the value of the
  body, and an empty body gives \<open>nil\<close>.  Through \<open>Eval\<close>, for every environment and
  every bound of at least 3:
  \<^item> \<open>((lambda (p1 ... pn :rest xs) xs) a1 ... am)\<close> with integers \<open>a1 ... am\<close>,
    \<open>n \<le> m\<close>, evaluates to the proper list \<open>(a(n+1) ... am)\<close>; in particular
    \<open>((lambda (:rest xs) xs) 1 2)\<close> evaluates to \<open>(1 2)\<close>;
  \<^item> \<open>((lambda (:rest xs) b1 ... bn xs) a1 ... am)\<close> evaluates to the value of its last
    form;
  \<^item> \<open>((lambda (:rest xs) b1 ... bn (throw 'foo v) c1 ... cm) a1 ...)\<close> yields the
    \<open>Throw\<close>, whatever the forms after it are;
  \<^item> \<open>((lambda (p1 ... pn)) a1 ... an)\<close>, whose body is empty, evaluates to \<open>nil\<close>; in
    particular \<open>((lambda (x)) 1)\<close> does.
\<close>

theorem lambda_rest_and_empty_body:
  "Eval ntv global (3 + m) (form_lambda_rest (map ObjInteger xs)) e k =
     Some (Val (of_list (map ObjInteger xs)), k) \<and>
   list_of (of_list (map ObjInteger xs)) = Some (map ObjInteger xs) \<and>
   Eval ntv global (3 + m) (form_lambda_rest [ObjInteger 1, ObjInteger 2]) e k =
     Some (Val (ObjCons (ObjInteger 1) (ObjCons (ObjInteger 2) ObjNull)), k) \<and>
   Eval ntv global (3 + m) (form_lambda_body (map ObjInteger bs) (map ObjInteger xs)) e k =
     Some (Val (of_list (map ObjInteger xs)), k) \<and>
   Eval ntv global (3 + m) (form_lambda_empty (ObjInteger a)) e k = Some (Val ObjNull, k) \<and>
   Eval ntv global (3 + m) (form_lambda_empty (ObjInteger 1)) e k = Some (Val ObjNull, k) \<and>
   (length ps \<le> length args \<longrightarrow>
      apply_function ntv ev (ObjClosure ps (Some r) body cenv) args e k =
        progn ev body
          (bind_variables
             (zip ps (take (length ps) args) @ [(r, of_list (drop (length ps) args))]) cenv) k) \<and>
   list_of (of_list (drop (length ps) args)) = Some (drop (length ps) args) \<and>
   (bind_parameters ps r' args = Some bnd \<longrightarrow>
      apply_function ntv ev (ObjClosure ps r' [] cenv) args e k = Some (Val ObjNull, k)) \<and>
   (ev f e k = Some (Val v, k1) \<longrightarrow> progn ev [f] e k = Some (Val v, k1)) \<and>
   (ev f e k = Some (Val v, k1) \<longrightarrow> fs \<noteq> [] \<longrightarrow> progn ev (f # fs) e k = progn ev fs e k1) \<and>
   (ev f e k = Some (Tok t, k1) \<longrightarrow> progn ev (f # fs) e k = Some (Tok t, k1)) \<and>
   ((\<forall>p\<in>set ps. \<not> is_rest p) \<longrightarrow> ''XS'' \<notin> set ps \<longrightarrow> length ps \<le> length xs \<longrightarrow>
      Eval ntv global (3 + m) (form_lambda_params ps (map ObjInteger xs)) e k =
        Some (Val (of_list (map ObjInteger (drop (length ps) xs))), k)) \<and>
   ((\<forall>p\<in>set ps. \<not> is_rest p) \<longrightarrow> length xs = length ps \<longrightarrow>
      Eval ntv global (3 + m) (form_lambda_no_body ps (map ObjInteger xs)) e k =
        Some (Val ObjNull, k)) \<and>
   Eval ntv global (3 + m)
     (form_lambda_throw (map ObjInteger bs) (ObjInteger a) after (map ObjInteger xs)) e k =
     Some (Tok (Throw (ObjSymbol ''FOO'') (ObjInteger a)), k)"
proof -
  have rest: "Eval ntv global (3 + m) (form_lambda_rest (map ObjInteger ys)) e k =
      Some (Val (of_list (map ObjInteger ys)), k)" for ys
    by (rule Eval_add[OF lambda_rest_fuel])
  have body: "Eval ntv global (3 + m) (form_lambda_body (map ObjInteger bs) (map ObjInteger xs))
      e k = Some (Val (of_list (map ObjInteger xs)), k)"
    by (rule Eval_add[OF lambda_body_fuel])
  have empty: "Eval ntv global (3 + m) (form_lambda_empty (ObjInteger b)) e k =
      Some (Val ObjNull, k)" for b
    by (rule Eval_add[OF lambda_empty_fuel])
  have params: "Eval ntv global (3 + m) (form_lambda_params ps (map ObjInteger xs)) e k =
      Some (Val (of_list (map ObjInteger (drop (length ps) xs))), k)"
    if "\<forall>p\<in>set ps. \<not> is_rest p" "''XS'' \<notin> set ps" "length ps \<le> length xs"
    using that by (intro Eval_add lambda_params_fuel)
  have no_body: "Eval ntv global (3 + m) (form_lambda_no_body ps (map ObjInteger xs)) e k =
      Some (Val ObjNull, k)"
    if "\<forall>p\<in>set ps. \<not> is_rest p" "length xs = length ps"
    using that by (intro Eval_add lambda_no_body_fuel)
  have throw: "Eval ntv global (3 + m)
      (form_lambda_throw (map ObjInteger bs) (ObjInteger a) after (map ObjInteger xs)) e k =
      Some (Tok (Throw (ObjSymbol ''FOO'') (ObjInteger a)), k)"
    by (rule Eval_add[OF lambda_throw_fuel])
  have first: "Eval ntv global (3 + m) (form_lambda_rest (map ObjInteger xs)) e k =
       Some (Val (of_list (map ObjInteger xs)), k) \<and>
     list_of (of_list (map ObjInteger xs)) = Some (map ObjInteger xs) \<and>
     Eval ntv global (3 + m) (form_lambda_rest [ObjInteger 1, ObjInteger 2]) e k =
       Some (Val (ObjCons (ObjInteger 1) (ObjCons (ObjInteger 2) ObjNull)), k) \<and>
     Eval ntv global (3 + m) (form_lambda_body (map ObjInteger bs) (map ObjInteger xs)) e k =
       Some (Val (of_list (map ObjInteger xs)), k) \<and>
     Eval ntv global (3 + m) (form_lambda_empty (ObjInteger a)) e k = Some (Val ObjNull, k) \<and>
     Eval ntv global (3 + m) (form_lambda_empty (ObjInteger 1)) e k = Some (Val ObjNull, k)"
    using rest[of xs] rest[of "[1, 2]"] body empty[of a] empty[of 1]
    by (simp add: list_of_of_list)
  show ?thesis
    using first apply_rest apply_empty_body progn_last progn_next progn_token params no_body
      throw list_of_of_list
    by (intro conjI impI) (simp_all del: progn.simps Eval.simps)
qed

text \<open>
  The general parts of C3 at concrete closures: \<open>((lambda (x :rest xs) xs) 1 2 3)\<close>
  gives \<open>(2 3)\<close>, \<open>((lambda (x y)) 1 2)\<close> gives \<open>nil\<close>, a closure \<open>(x :rest r)\<close> with
  the body \<open>x r\<close> applied to \<open>1 2 3\<close> gives \<open>(2 3)\<close> and with an empty body \<open>nil\<close>,
  and a sequence gives its last value or the token of its first form.
\<close>

theorem lambda_rest_and_empty_body_witness:
  "Eval test_natives test_global 3
     (form_lambda_params [''X''] [ObjInteger 1, ObjInteger 2, ObjInteger 3]) test_local 0 =
     Some (Val (ObjCons (ObjInteger 2) (ObjCons (ObjInteger 3) ObjNull)), 0) \<and>
   Eval test_natives test_global 3
     (form_lambda_no_body [''X'', ''Y''] [ObjInteger 1, ObjInteger 2]) test_local 0 =
     Some (Val ObjNull, 0) \<and>
   apply_function test_natives (Eval test_natives test_global 1)
     (ObjClosure [''X''] (Some ''R'') [ObjSymbol ''X'', ObjSymbol ''R''] test_local)
     [ObjInteger 1, ObjInteger 2, ObjInteger 3] test_local 0 =
     Some (Val (ObjCons (ObjInteger 2) (ObjCons (ObjInteger 3) ObjNull)), 0) \<and>
   apply_function test_natives (Eval test_natives test_global 1)
     (ObjClosure [''X''] (Some ''R'') [] test_local)
     [ObjInteger 1, ObjInteger 2, ObjInteger 3] test_local 0 = Some (Val ObjNull, 0) \<and>
   progn (Eval test_natives test_global 1) [ObjInteger 7] test_local 0 =
     Some (Val (ObjInteger 7), 0) \<and>
   progn (Eval test_natives test_global 1) [ObjInteger 7, ObjInteger 8] test_local 0 =
     Some (Val (ObjInteger 8), 0) \<and>
   progn (Eval test_natives test_global 1) [ObjSymbol ''U'', ObjInteger 8] test_local 0 =
     Some (Tok (Condition (unbound_variable ''U'')), 0)"
proof -
  let ?ev = "Eval test_natives test_global 1"
  let ?args = "[ObjInteger 1, ObjInteger 2, ObjInteger 3]"
  note c = lambda_rest_and_empty_body
  have p: "\<forall>p\<in>set [''X'']. \<not> is_rest p" "''XS'' \<notin> set [''X'']"
    "length [''X''] \<le> length [1, 2, 3 :: 64 word]"
    by (simp_all add: is_rest_def)
  have 1: "Eval test_natives test_global 3
      (form_lambda_params [''X''] [ObjInteger 1, ObjInteger 2, ObjInteger 3]) test_local 0 =
      Some (Val (ObjCons (ObjInteger 2) (ObjCons (ObjInteger 3) ObjNull)), 0)"
    using c[where ps = "[''X'']" and xs = "[1, 2, 3]" and m = 0 and ntv = test_natives
        and global = test_global and e = test_local and k = 0] p
    by simp
  have q: "\<forall>p\<in>set [''X'', ''Y'']. \<not> is_rest p" "length [1, 2 :: 64 word] = length [''X'', ''Y'']"
    by (simp_all add: is_rest_def)
  have 2: "Eval test_natives test_global 3
      (form_lambda_no_body [''X'', ''Y''] [ObjInteger 1, ObjInteger 2]) test_local 0 =
      Some (Val ObjNull, 0)"
    using c[where ps = "[''X'', ''Y'']" and xs = "[1, 2]" and m = 0 and ntv = test_natives
        and global = test_global and e = test_local and k = 0] q
    by simp
  have l: "length [''X''] \<le> length ?args" by simp
  have "apply_function test_natives ?ev
      (ObjClosure [''X''] (Some ''R'') [ObjSymbol ''X'', ObjSymbol ''R''] test_local)
      ?args test_local 0 =
      progn ?ev [ObjSymbol ''X'', ObjSymbol ''R'']
        (bind_variables (zip [''X''] (take (length [''X'']) ?args) @
           [(''R'', of_list (drop (length [''X'']) ?args))]) test_local) 0"
    using c[where ps = "[''X'']" and args = ?args and ntv = test_natives and ev = ?ev
        and r = "''R''" and body = "[ObjSymbol ''X'', ObjSymbol ''R'']" and cenv = test_local
        and e = test_local and k = 0] l
    by blast
  then have 3: "apply_function test_natives ?ev
      (ObjClosure [''X''] (Some ''R'') [ObjSymbol ''X'', ObjSymbol ''R''] test_local)
      ?args test_local 0 = Some (Val (ObjCons (ObjInteger 2) (ObjCons (ObjInteger 3) ObjNull)), 0)"
    by (simp add: eval_form_def lookup_def bind_variables_def)
  have b: "bind_parameters [''X''] (Some ''R'') ?args =
      Some [(''X'', ObjInteger 1), (''R'', of_list [ObjInteger 2, ObjInteger 3])]"
    by (simp add: bind_parameters_def)
  have 4: "apply_function test_natives ?ev (ObjClosure [''X''] (Some ''R'') [] test_local)
      ?args test_local 0 = Some (Val ObjNull, 0)"
    using c[where ps = "[''X'']" and args = ?args and ntv = test_natives and ev = ?ev
        and r' = "Some ''R''" and cenv = test_local and e = test_local and k = 0] b
    by blast
  have v7: "?ev (ObjInteger 7) test_local 0 = Some (Val (ObjInteger 7), 0)"
    by (simp add: eval_form_def)
  have u: "?ev (ObjSymbol ''U'') test_local 0 = Some (Tok (Condition (unbound_variable ''U'')), 0)"
    by (simp add: eval_form_def lookup_def test_local_def test_global_def)
  have ne: "[ObjInteger 8] \<noteq> []" by simp
  note c7 = c[where ev = ?ev and f = "ObjInteger 7" and e = test_local and k = 0
      and v = "ObjInteger 7" and ?k1.0 = 0 and fs = "[ObjInteger 8]"]
  have 5: "progn ?ev [ObjInteger 7] test_local 0 = Some (Val (ObjInteger 7), 0)"
    using c7 v7 by blast
  have "progn ?ev [ObjInteger 7, ObjInteger 8] test_local 0 = progn ?ev [ObjInteger 8] test_local 0"
    using c7 v7 ne by blast
  then have 6: "progn ?ev [ObjInteger 7, ObjInteger 8] test_local 0 = Some (Val (ObjInteger 8), 0)"
    by (simp add: eval_form_def)
  have 7: "progn ?ev [ObjSymbol ''U'', ObjInteger 8] test_local 0 =
      Some (Tok (Condition (unbound_variable ''U'')), 0)"
    using c[where ev = ?ev and f = "ObjSymbol ''U''" and e = test_local and k = 0
        and t = "Condition (unbound_variable ''U'')" and ?k1.0 = 0 and fs = "[ObjInteger 8]"] u
    by blast
  show ?thesis using 1 2 3 4 5 6 7 by blast
qed

lemma inc_inc_fuel:
  assumes "lookup MacroNS e global ''INC'' = None"
    and "lookup FunctionNS e global ''INC'' = Some (ObjNative i)"
    and "ntv i = inc"
  shows "Eval ntv global 3 form_inc_inc e k = Some (Val (ObjInteger 3), k)"
  using assms
  by (simp add: eval_nat_numeral form_inc_inc_def eval_form_def eval_cons_def eval_call_def
      eval_function_def apply_function_def inc_def)

text \<open>
  Claim C7.  In an environment whose function namespace binds \<open>INC\<close> to a native
  function that is the add-one routine of the test (and where \<open>INC\<close> is not a macro),
  \<open>(inc (inc 1))\<close> evaluates to the integer 3 with no token, for every bound of at least
  3: the value of the inner call is the argument list of the outer one.
\<close>

theorem inc_inc_returns_3:
  assumes "lookup MacroNS e global ''INC'' = None"
    and "lookup FunctionNS e global ''INC'' = Some (ObjNative i)"
    and "ntv i = inc"
  shows "Eval ntv global (3 + m) form_inc_inc e k = Some (Val (ObjInteger 3), k)"
  using assms by (intro Eval_add inc_inc_fuel)

text \<open>C7 in the environment of the test.\<close>

theorem inc_inc_returns_3_witness:
  "Eval test_natives test_global 3 form_inc_inc test_local 0 = Some (Val (ObjInteger 3), 0)"
  using inc_inc_returns_3[of test_local test_global 0 test_natives 0 0]
  by (simp add: lookup_def test_local_def test_global_def test_natives_def)
section \<open>The list library: lists in the store\<close>

lemma Slice_listFrom: "listFrom lo h v xs \<Longrightarrow> Slice h v = Some xs"
proof (induction xs arbitrary: v)
  case Nil
  then show ?case by (subst Slice.simps) simp
next
  case (Cons x xs)
  then show ?case by (subst Slice.simps) (auto split: Instance.splits)
qed

lemma listFrom_append: "listFrom lo h v xs \<Longrightarrow> listFrom lo (h @ h2) v xs"
  by (induction xs arbitrary: v) (auto split: Instance.splits simp: nth_append)


lemma listFrom_NewCons:
  assumes "listFrom lo h cons acc" and "lo \<le> length h"
  shows "listFrom lo (h @ [\<lparr>Car = x, Cdr = cons\<rparr>]) (ConsRef (length h)) (x # acc)"
  using assms by (simp add: listFrom_append)

lemma Reverse_loop_spec:
  "listFrom lo h cons acc \<Longrightarrow> lo \<le> length h \<Longrightarrow>
   \<exists>v new. Reverse_loop xs cons h = (v, h @ new) \<and> length new = length xs \<and>
      listFrom lo (h @ new) v (rev xs @ acc)"
proof (induction xs arbitrary: cons h acc)
  case Nil
  then show ?case by simp
next
  case (Cons x xs)
  let ?h1 = "h @ [\<lparr>Car = x, Cdr = cons\<rparr>]"
  have "listFrom lo ?h1 (ConsRef (length h)) (x # acc)"
    using Cons.prems by (rule listFrom_NewCons)
  moreover have "lo \<le> length ?h1" using Cons.prems by simp
  ultimately obtain v new where
    "Reverse_loop xs (ConsRef (length h)) ?h1 = (v, ?h1 @ new)" "length new = length xs"
    "listFrom lo (?h1 @ new) v (rev xs @ x # acc)"
    using Cons.IH by blast
  then show ?case
    by (auto simp: NewCons_def intro!: exI[of _ "\<lparr>Car = x, Cdr = cons\<rparr> # new"])
qed

lemma Nreverse_loop_eq: "Nreverse_loop xs cons h = Reverse_loop xs cons h"
  by (induction xs arbitrary: cons h) (auto split: prod.splits)

lemma Nreverse_eq: "Nreverse list h = Reverse list h"
  by (auto simp: Nreverse_def Reverse_def Nreverse_loop_eq split: option.splits)

lemma InstanceOf_listFrom: "listFrom lo h v xs \<Longrightarrow> InstanceOf ClassList v"
  by (cases xs) (auto split: Instance.splits)

lemma Reverse_proper:
  assumes "listFrom 0 h list xs"
  shows "\<exists>v new. Reverse list h = Some (Inr v, h @ new) \<and> length new = length xs \<and>
    listFrom (length h) (h @ new) v (rev xs) \<and> listFrom 0 (h @ new) list xs"
proof -
  have "listFrom (length h) h Null []" by simp
  from Reverse_loop_spec[OF this, of xs] obtain v new where
    "Reverse_loop xs Null h = (v, h @ new)" "length new = length xs"
    "listFrom (length h) (h @ new) v (rev xs)"
    by auto
  then show ?thesis
    using assms Slice_listFrom[OF assms] InstanceOf_listFrom[OF assms] listFrom_append[OF assms]
    by (simp add: Reverse_def)
qed

lemma Reverse_not_list:
  "\<not> InstanceOf ClassList list \<Longrightarrow> Reverse list h = Some (Inl (DomainError list ClassList), h)"
  by (simp add: Reverse_def)

text \<open>
  Claim C8.  \<open>Reverse\<close> and \<open>Nreverse\<close> are equal on every argument and every store.
  On a proper list with the elements \<open>xs\<close> both return a list with the elements
  \<open>rev xs\<close> all of whose cells are new (their addresses lie beyond the old store), the
  old store is a prefix of the new one, so no cons of the input was changed, and the
  input is still the list \<open>xs\<close>.  On an argument that is not a list both signal a
  domain-error.
\<close>

theorem Reverse_Nreverse_equal:
  "Nreverse list h = Reverse list h \<and>
   (listFrom 0 h list xs \<longrightarrow>
      (\<exists>v new. Reverse list h = Some (Inr v, h @ new) \<and> length new = length xs \<and>
         listFrom (length h) (h @ new) v (rev xs) \<and> listFrom 0 (h @ new) list xs)) \<and>
   (\<not> InstanceOf ClassList list \<longrightarrow>
      Reverse list h = Some (Inl (DomainError list ClassList), h))"
  using Nreverse_eq Reverse_proper Reverse_not_list by blast

text \<open>C8 on the list \<open>(3 t)\<close> and on a symbol.\<close>

theorem Reverse_Nreverse_equal_witness:
  "listFrom 0 sample_store (ConsRef 1) [Integer 3, T] \<and>
   Nreverse (ConsRef 1) sample_store =
     Some (Inr (ConsRef 3),
           sample_store @ [\<lparr>Car = Integer 3, Cdr = Null\<rparr>, \<lparr>Car = T, Cdr = ConsRef 2\<rparr>]) \<and>
   listFrom 2 (sample_store @ [\<lparr>Car = Integer 3, Cdr = Null\<rparr>, \<lparr>Car = T, Cdr = ConsRef 2\<rparr>])
     (ConsRef 3) [T, Integer 3] \<and>
   \<not> InstanceOf ClassList (Symbol ''A'') \<and>
   Nreverse (Symbol ''A'') sample_store = Some (Inl (DomainError (Symbol ''A'') ClassList), sample_store)"
  using Reverse_Nreverse_equal[of "ConsRef 1" sample_store "[Integer 3, T]"]
    Reverse_Nreverse_equal[of "Symbol ''A''" sample_store "[]"]
  by (simp add: sample_store_def Reverse_def Slice.simps NewCons_def)

lemma CreateList_loop_spec:
  "listFrom lo h cons acc \<Longrightarrow> lo \<le> length h \<Longrightarrow>
   \<exists>v new. CreateList_loop j n elm cons h = (v, h @ new) \<and> length new = nat (n - j) \<and>
      listFrom lo (h @ new) v (replicate (nat (n - j)) elm @ acc) \<and> (n \<le> j \<longrightarrow> v = cons)"
proof (induction j n elm cons h arbitrary: acc rule: CreateList_loop.induct)
  case (1 j n elm cons h)
  show ?case
  proof (cases "j < n")
    case False
    then have "CreateList_loop j n elm cons h = (cons, h)"
      by (subst CreateList_loop.simps) simp
    then show ?thesis using False "1.prems" by simp
  next
    case True
    let ?h1 = "h @ [\<lparr>Car = elm, Cdr = cons\<rparr>]"
    have a: "listFrom lo ?h1 (ConsRef (length h)) (elm # acc)"
      using "1.prems" by (rule listFrom_NewCons)
    have b: "lo \<le> length ?h1" using "1.prems" by simp
    have nc: "(ConsRef (length h), ?h1) = NewCons elm cons h" by (simp add: NewCons_def)
    from "1.IH"[OF True nc a b] obtain v new where
      r: "CreateList_loop (j + 1) n elm (ConsRef (length h)) ?h1 = (v, ?h1 @ new)"
      "length new = nat (n - (j + 1))"
      "listFrom lo (?h1 @ new) v (replicate (nat (n - (j + 1))) elm @ elm # acc)"
      by (auto simp: NewCons_def)
    have n: "nat (n - j) = Suc (nat (n - (j + 1)))" using True by simp
    have "CreateList_loop j n elm cons h = (v, h @ (\<lparr>Car = elm, Cdr = cons\<rparr> # new))"
      using True r(1) by (subst CreateList_loop.simps) (simp add: NewCons_def)
    moreover have "length (\<lparr>Car = elm, Cdr = cons\<rparr> # new) = nat (n - j)"
      using r(2) n by simp
    moreover have "listFrom lo (h @ (\<lparr>Car = elm, Cdr = cons\<rparr> # new)) v
        (replicate (nat (n - j)) elm @ acc)"
      using r(3) n by (simp add: replicate_app_Cons_same)
    moreover have "\<not> n \<le> j" using True by simp
    ultimately show ?thesis
      by (intro exI[of _ v] exI[of _ "\<lparr>Car = elm, Cdr = cons\<rparr> # new"]) simp
  qed
qed

text \<open>
  Claim C9.  For every integer \<open>i\<close> and at most one initial element, \<open>CreateList\<close>
  returns without a condition a proper list of new cells whose length is \<open>i\<close> when
  \<open>i\<close> is not negative, every element being the initial element (\<open>nil\<close> when there
  is none); when \<open>i\<close> is negative the result is \<open>nil\<close>, nothing is allocated and no
  condition is signalled.  With more than one initial element it signals an arity-error.
\<close>

theorem CreateList_result:
  "(length initialElement \<le> 1 \<longrightarrow>
      (\<exists>v new. CreateList (Integer n) initialElement h = (Inr v, h @ new) \<and>
         length new = nat (sint n) \<and>
         listFrom (length h) (h @ new) v
           (replicate (nat (sint n)) (if initialElement = [] then Null else hd initialElement)) \<and>
         (sint n < 0 \<longrightarrow> v = Null \<and> new = []))) \<and>
   (1 < length initialElement \<longrightarrow>
      CreateList (Integer n) initialElement h = (Inl ArityError, h))"
proof (intro conjI impI)
  assume le: "length initialElement \<le> 1"
  let ?elm = "if length initialElement = 1 then initialElement ! 0 else Null"
  have elm: "?elm = (if initialElement = [] then Null else hd initialElement)"
    using le by (cases initialElement) auto
  have "listFrom (length h) h Null []" by simp
  from CreateList_loop_spec[OF this, of 0 "sint n" ?elm] obtain v new where
    "CreateList_loop 0 (sint n) ?elm Null h = (v, h @ new)" "length new = nat (sint n)"
    "listFrom (length h) (h @ new) v (replicate (nat (sint n)) ?elm)" "sint n \<le> 0 \<longrightarrow> v = Null"
    by auto
  then show "\<exists>v new. CreateList (Integer n) initialElement h = (Inr v, h @ new) \<and>
         length new = nat (sint n) \<and>
         listFrom (length h) (h @ new) v
           (replicate (nat (sint n)) (if initialElement = [] then Null else hd initialElement)) \<and>
         (sint n < 0 \<longrightarrow> v = Null \<and> new = [])"
    using le elm by (auto simp: CreateList_def Let_def)
next
  assume "1 < length initialElement"
  then show "CreateList (Integer n) initialElement h = (Inl ArityError, h)"
    by (simp add: CreateList_def)
qed

text \<open>C9 for the length 2, for the length -1 and for two initial elements.\<close>

theorem CreateList_result_witness:
  "CreateList (Integer 2) [T] [] =
     (Inr (ConsRef 1), [\<lparr>Car = T, Cdr = Null\<rparr>, \<lparr>Car = T, Cdr = ConsRef 0\<rparr>]) \<and>
   CreateList (Integer (- 1)) [] sample_store = (Inr Null, sample_store) \<and>
   CreateList (Integer 2) [T, T] [] = (Inl ArityError, [])"
  using CreateList_result[of "[T]" 2 "[]"] CreateList_result[of "[]" "- 1" sample_store]
    CreateList_result[of "[T, T]" 2 "[]"]
  by (simp add: CreateList_def NewCons_def CreateList_loop.simps)
section \<open>General arrays: the index buffer\<close>

lemma index_loop_integers:
  "listFrom 0 h cdr (map Integer ns) \<Longrightarrow> idx \<le> 128 \<Longrightarrow>
   (if idx + length ns \<le> 128 then \<exists>dim'. index_loop h cdr dim idx = Inr dim'
    else index_loop h cdr dim idx = Inl IndexOutOfRange)"
proof (induction ns arbitrary: cdr dim idx)
  case Nil
  then show ?case by (subst index_loop.simps) simp
next
  case (Cons n ns)
  from Cons.prems(1) obtain a where a: "cdr = ConsRef a" "a < length h"
    "Car (h ! a) = Integer n" "listFrom 0 h (Cdr (h ! a)) (map Integer ns)"
    by (auto split: Instance.splits)
  show ?case
  proof (cases "idx < 128")
    case True
    then have "index_loop h cdr dim idx = index_loop h (Cdr (h ! a)) (dim[idx := n]) (Suc idx)"
      using a by (subst index_loop.simps) simp
    moreover have "Suc idx \<le> 128" using True by simp
    ultimately show ?thesis using Cons.IH[OF a(4), of "Suc idx" "dim[idx := n]"]
      by (auto split: if_splits)
  next
    case False
    then have "index_loop h cdr dim idx = Inl IndexOutOfRange"
      using a by (subst index_loop.simps) simp
    then show ?thesis using False by simp
  qed
qed

lemma listFrom_key: "listFrom lo h key xs \<Longrightarrow> InstanceOf ClassList key \<and> key \<noteq> Symbol s"
  by (cases xs) (auto split: Instance.splits)

text \<open>
  Claim C4 says that copying the key into the index buffer never leaves the buffer, for
  keys of any length.  The code has no test of \<open>idx\<close> against 128.  For a key that is a
  proper list of integers, \<open>GetSlotValue\<close> and \<open>SetSlotValue\<close> stop with an index out
  of range exactly when the key has more than 128 elements; up to 128 elements they do
  not.
\<close>

theorem GeneralArrayStar_index_out_of_range:
  assumes "listFrom 0 h key (map Integer ns)"
  shows "(GetSlotValue a key h = Inl IndexOutOfRange) = (128 < length ns) \<and>
    (SetSlotValue a key v h = Inl IndexOutOfRange) = (128 < length ns)"
proof -
  from index_loop_integers[OF assms, of 0 "replicate 128 0"]
  have "if length ns \<le> 128 then \<exists>dim'. index_loop h key (replicate 128 0) 0 = Inr dim'
    else index_loop h key (replicate 128 0) 0 = Inl IndexOutOfRange"
    by simp
  then show ?thesis using listFrom_key[OF assms]
    by (auto simp: GetSlotValue_def SetSlotValue_def split: if_splits)
qed

lemma key_store_list: "listFrom 0 key_store long_key (map Integer (replicate 129 0))"
  unfolding key_store_def long_key_def by code_simp

text \<open>C4 at the key of 129 zeros: both methods stop with an index out of range.\<close>

theorem GeneralArrayStar_index_out_of_range_witness:
  "GetSlotValue sample_array long_key key_store = Inl IndexOutOfRange \<and>
   SetSlotValue sample_array long_key T key_store = Inl IndexOutOfRange"
  using GeneralArrayStar_index_out_of_range[OF key_store_list, of sample_array T]
  by simp

section \<open>\<open>Mapcar\<close>: the calls it makes\<close>











end
